theory Spec2Isabelle
  imports Complex_Main "HOL-Library.List_Lexorder" "HOL-Library.Char_ord"
begin

section \<open>JavaScript values and numbers\<close>

text \<open>
  The scoring, aiming and leaderboard code computes with JavaScript numbers, which are IEEE
  754 doubles. A finite number is a real number (wedge values and points are integers).
  The sampling of the aim controller and the composite score of the leaderboard round the
  result of every operation to the nearest double (\<open>fl64\<close> below); the comparisons of the
  scoring engine are made on the real values. Where the source tests a value with
  \<^verbatim>\<open>typeof\<close> or \<^verbatim>\<open>Number.isFinite\<close>, the value is a \<open>jsval\<close>, so that the non-numbers
  and the non-finite numbers are inputs of the model.
\<close>

datatype jsval =
    JUndefined
  | JNull
  | JBool bool
  | JStr string
  | JNum real
  | JNaN
  | JInf bool

text \<open>\<^verbatim>\<open>typeof v === "number"\<close>: true for finite numbers, NaN and both infinities.\<close>

fun typeof_number :: "jsval \<Rightarrow> bool" where
  "typeof_number (JNum _) = True"
| "typeof_number JNaN = True"
| "typeof_number (JInf _) = True"
| "typeof_number _ = False"

text \<open>
  \<^verbatim>\<open>a % b\<close> on numbers is the remainder of the division truncated towards zero; it has the
  sign of the dividend. The source only divides by the non-zero constants \<open>2 * pi\<close> and 20.
\<close>

definition js_trunc :: "real \<Rightarrow> int" where
  "js_trunc q = (if 0 \<le> q then \<lfloor>q\<rfloor> else \<lceil>q\<rceil>)"

definition js_fmod :: "real \<Rightarrow> real \<Rightarrow> real" where
  "js_fmod a b = a - b * of_int (js_trunc (a / b))"

definition js_rem :: "int \<Rightarrow> int \<Rightarrow> int" where
  "js_rem a b = sgn a * (\<bar>a\<bar> mod \<bar>b\<bar>)"

section \<open>Rounding to the nearest double\<close>

text \<open>
  \<open>fl64 x\<close> is the double nearest to \<open>x\<close>, ties going to the even significand: a double
  is an integer multiple of \<open>2^e\<close> with a significand of at most 53 bits, \<open>e\<close> being 52
  below the binary exponent of \<open>x\<close> and not below \<open>-1074\<close> (the subnormal numbers). A result
  of magnitude \<open>2^1024\<close> or more, which a double arithmetic gives as an infinity, is outside
  this model. A decimal literal of the source that is not a double stands for its nearest
  double.
\<close>

definition pow2 :: "int \<Rightarrow> real" where
  "pow2 e = 2 powr (of_int e)"

definition rne :: "real \<Rightarrow> int" where
  "rne y =
     (let f = \<lfloor>y\<rfloor>; d = y - of_int f
      in if d < 1/2 then f else if 1/2 < d then f + 1 else if even f then f else f + 1)"

definition float_exp :: "real \<Rightarrow> int" where
  "float_exp x = max (\<lfloor>log 2 \<bar>x\<bar>\<rfloor> - 52) (- 1074)"

definition fl64 :: "real \<Rightarrow> real" where
  "fl64 x =
     (if x = 0 then 0
      else sgn x * (of_int (rne (\<bar>x\<bar> / pow2 (float_exp x))) * pow2 (float_exp x)))"

text \<open>
  The functions of the global \<^verbatim>\<open>Math\<close> object that the aim controller calls. ECMAScript
  leaves their values to the implementation (an approximation of the mathematical
  function), so they are parameters of the model. \<open>roundedMath\<close> is the library that
  returns the double nearest to the exact value.
\<close>

record js_math =
  m_sqrt :: "real \<Rightarrow> real"
  m_cos :: "real \<Rightarrow> real"
  m_sin :: "real \<Rightarrow> real"
  m_hypot :: "real \<Rightarrow> real \<Rightarrow> real"

definition roundedMath :: js_math where
  "roundedMath =
     \<lparr>m_sqrt = (\<lambda>x. fl64 (sqrt x)),
      m_cos = (\<lambda>x. fl64 (cos x)),
      m_sin = (\<lambda>x. fl64 (sin x)),
      m_hypot = (\<lambda>x y. fl64 (sqrt (x * x + y * y)))\<rparr>"

section \<open>Scoring engine (scoring.js)\<close>

datatype ring = MISS | DBULL | SBULL | DOUBLE | TRIPLE | SINGLE

record ring_ratios =
  outer :: real
  doubleInner :: real
  doubleOuter :: real
  tripleInner :: real
  tripleOuter :: real
  bullOuter :: real
  dbullOuter :: real

record bull_points =
  bull :: "int option"
  dbull :: "int option"

text \<open>
  The scoring configuration object. A field that the source reads defensively is optional:
  \<open>None\<close> stands for a field that is missing or fails the source's type test
  (\<^verbatim>\<open>Array.isArray(numbers)\<close>, a truthy \<^verbatim>\<open>ringRatios\<close>, \<^verbatim>\<open>typeof wedgeAngle === "number"\<close>, ...).
\<close>

record scoring_config =
  wedgeAngle :: "real option"
  startAngle :: "real option"
  direction :: string
  angleOffset :: "real option"
  numbers :: "int list option"
  ringRatios :: "ring_ratios option"
  ringEpsN :: jsval
  points :: "bull_points option"
  boardRadius :: jsval

record ring_info =
  ri_ring :: ring
  ri_mult :: nat

record score_result =
  sr_points :: int
  sr_label :: string
  sr_wedge :: "int option"
  sr_wedgeIndex :: "int option option"
  sr_mult :: nat
  sr_ring :: ring
  sr_angle :: real
  sr_radius :: real
  sr_rNorm :: real

definition normAngle0To2Pi :: "real \<Rightarrow> real" where
  "normAngle0To2Pi a =
     (let TWO_PI = pi * 2;
          x = js_fmod a TWO_PI
      in if x < 0 then x + TWO_PI else x)"

definition getRingEpsN :: "scoring_config \<Rightarrow> real" where
  "getRingEpsN scoringConfig =
     (case ringEpsN scoringConfig of
        JNum v \<Rightarrow> if 0 \<le> v then v else 0.01
      | _ \<Rightarrow> 0.01)"

text \<open>
  The wedge index is \<open>None\<close> where the source computes NaN: a missing \<open>wedgeAngle\<close> or
  \<open>startAngle\<close>, or a division by a zero \<open>wedgeAngle\<close>.
\<close>

definition wedgeIndexFromAngle :: "real \<Rightarrow> scoring_config \<Rightarrow> int option" where
  "wedgeIndexFromAngle theta scoringConfig =
     (case (wedgeAngle scoringConfig, startAngle scoringConfig) of
        (Some w, Some startAngleCenter) \<Rightarrow>
          (let dir = (if direction scoringConfig = ''cw'' then ''cw'' else ''ccw'');
               off = (case angleOffset scoringConfig of Some v \<Rightarrow> v | None \<Rightarrow> 0);
               a = normAngle0To2Pi (theta + off);
               delta = (if dir = ''cw'' then normAngle0To2Pi (startAngleCenter - a)
                        else normAngle0To2Pi (a - startAngleCenter))
           in if w = 0 then None
              else Some (js_rem \<lfloor>(delta + w / 2) / w\<rfloor> 20))
      | _ \<Rightarrow> None)"

text \<open>
  \<open>ringFromRadiusRatio\<close> reads \<^verbatim>\<open>rr.outer\<close> without a test: with no \<open>ringRatios\<close> the
  source raises a TypeError, the \<open>None\<close> of the model. Its only caller has tested
  \<open>ringRatios\<close> before.
\<close>

definition ringFromRadiusRatio :: "real \<Rightarrow> scoring_config \<Rightarrow> ring_info option" where
  "ringFromRadiusRatio rNorm scoringConfig =
     (case ringRatios scoringConfig of
        None \<Rightarrow> None
      | Some rr \<Rightarrow>
          (let eps = getRingEpsN scoringConfig in
           Some (if rNorm > outer rr + eps then \<lparr>ri_ring = MISS, ri_mult = 0\<rparr>
                 else if rNorm \<le> dbullOuter rr + eps then \<lparr>ri_ring = DBULL, ri_mult = 0\<rparr>
                 else if rNorm \<le> bullOuter rr + eps then \<lparr>ri_ring = SBULL, ri_mult = 0\<rparr>
                 else if rNorm \<ge> doubleInner rr - eps \<and> rNorm \<le> doubleOuter rr + eps
                   then \<lparr>ri_ring = DOUBLE, ri_mult = 2\<rparr>
                 else if rNorm \<ge> tripleInner rr - eps \<and> rNorm \<le> tripleOuter rr + eps
                   then \<lparr>ri_ring = TRIPLE, ri_mult = 3\<rparr>
                 else \<lparr>ri_ring = SINGLE, ri_mult = 1\<rparr>)))"

text \<open>\<^verbatim>\<open>Math.atan2(y, x)\<close> on finite numbers, with a result in \<open>(-pi, pi]\<close>.\<close>

definition js_atan2 :: "real \<Rightarrow> real \<Rightarrow> real" where
  "js_atan2 y x =
     (if 0 < x then arctan (y / x)
      else if x < 0 \<and> 0 \<le> y then arctan (y / x) + pi
      else if x < 0 then arctan (y / x) - pi
      else if 0 < y then pi / 2
      else if y < 0 then - (pi / 2)
      else 0)"

text \<open>Decimal rendering of an integer, as a template literal renders a number.\<close>

definition digit_char :: "nat \<Rightarrow> char" where
  "digit_char d =
     (if d = 0 then CHR ''0'' else if d = 1 then CHR ''1'' else if d = 2 then CHR ''2''
      else if d = 3 then CHR ''3'' else if d = 4 then CHR ''4'' else if d = 5 then CHR ''5''
      else if d = 6 then CHR ''6'' else if d = 7 then CHR ''7'' else if d = 8 then CHR ''8''
      else CHR ''9'')"

fun string_of_nat :: "nat \<Rightarrow> string" where
  "string_of_nat n =
     (if n < 10 then [digit_char n]
      else string_of_nat (n div 10) @ [digit_char (n mod 10)])"

declare string_of_nat.simps [simp del]

definition string_of_int :: "int \<Rightarrow> string" where
  "string_of_int i = (if i < 0 then CHR ''-'' # string_of_nat (nat (- i)) else string_of_nat (nat i))"

text \<open>
  \<open>scoreFromBoardXY\<close>. The three MISS results of the source differ in \<open>radius\<close> and
  \<open>rNorm\<close> only (both 0 when the configuration is rejected). The ring classifier is called
  after the test of \<open>ringRatios\<close>, so its \<open>None\<close> cannot occur here; that branch is there to
  make the case complete. The index into \<open>numbers\<close> is read as the source reads it: an
  index that is NaN or outside \<open>0..19\<close> gives \<^verbatim>\<open>undefined\<close>, and the wedge value 0.
\<close>

definition missResult :: "real \<Rightarrow> real \<Rightarrow> score_result" where
  "missResult r rNorm =
     \<lparr>sr_points = 0, sr_label = ''MISS'', sr_wedge = None, sr_wedgeIndex = None, sr_mult = 0,
      sr_ring = MISS, sr_angle = 0, sr_radius = r, sr_rNorm = rNorm\<rparr>"

definition scoreFromBoardXY :: "real \<Rightarrow> real \<Rightarrow> scoring_config option \<Rightarrow> score_result" where
  "scoreFromBoardXY x y cfg =
     (case cfg of
        None \<Rightarrow> missResult 0 0
      | Some scoringConfig \<Rightarrow>
         (case (numbers scoringConfig, ringRatios scoringConfig,
                wedgeAngle scoringConfig, startAngle scoringConfig) of
            (Some nums, Some rr, Some w, Some sa) \<Rightarrow>
              if length nums \<noteq> 20 then missResult 0 0
              else
                (let r = sqrt (x * x + y * y);
                     rNorm = (case boardRadius scoringConfig of
                                JNum b \<Rightarrow> if 0 < b then r / b else r
                              | _ \<Rightarrow> r)
                 in case ringFromRadiusRatio rNorm scoringConfig of
                      None \<Rightarrow> missResult r rNorm
                    | Some ringInfo \<Rightarrow>
                        if ri_ring ringInfo = DBULL then
                          \<lparr>sr_points = (case points scoringConfig of
                                          None \<Rightarrow> 50
                                        | Some p \<Rightarrow> (case dbull p of None \<Rightarrow> 50 | Some v \<Rightarrow> v)),
                           sr_label = ''DBULL'', sr_wedge = None, sr_wedgeIndex = None,
                           sr_mult = 0, sr_ring = DBULL, sr_angle = 0, sr_radius = r,
                           sr_rNorm = rNorm\<rparr>
                        else if ri_ring ringInfo = SBULL then
                          \<lparr>sr_points = (case points scoringConfig of
                                          None \<Rightarrow> 25
                                        | Some p \<Rightarrow> (case bull p of None \<Rightarrow> 25 | Some v \<Rightarrow> v)),
                           sr_label = ''SBULL'', sr_wedge = None, sr_wedgeIndex = None,
                           sr_mult = 0, sr_ring = SBULL, sr_angle = 0, sr_radius = r,
                           sr_rNorm = rNorm\<rparr>
                        else if ri_ring ringInfo = MISS then missResult r rNorm
                        else
                          (let theta = js_atan2 y x;
                               thetaNorm = normAngle0To2Pi theta;
                               idx = wedgeIndexFromAngle thetaNorm scoringConfig;
                               wedgeValue = (case idx of
                                               None \<Rightarrow> 0
                                             | Some i \<Rightarrow>
                                                 if 0 \<le> i \<and> i < 20 then nums ! nat i else 0);
                               mult = ri_mult ringInfo;
                               labelPrefix = (if mult = 3 then ''T''
                                              else if mult = 2 then ''D'' else ''S'')
                           in \<lparr>sr_points = wedgeValue * int mult,
                               sr_label = labelPrefix @ string_of_int wedgeValue,
                               sr_wedge = Some wedgeValue, sr_wedgeIndex = Some idx,
                               sr_mult = mult, sr_ring = ri_ring ringInfo,
                               sr_angle = thetaNorm, sr_radius = r, sr_rNorm = rNorm\<rparr>))
          | _ \<Rightarrow> missResult 0 0))"

text \<open>
  \<open>validateScoringConfig\<close> collects one error for each failed test; the configuration
  passes (\<open>ok\<close>) when it collects none. The \<^verbatim>\<open>typeof\<close> tests on \<open>startAngle\<close> and
  \<open>wedgeAngle\<close> are the tests for \<open>Some\<close>; the seven ratios of a \<open>ring_ratios\<close> are
  numbers.
\<close>

datatype config_error =
    ConfigNotAnObject
  | NumbersNotArrayOf20
  | StartAngleNotNumber
  | WedgeAngleNotNumber
  | DirectionNotCcwOrCw
  | RingRatiosMissing
  | RingEpsNInvalid

definition validateScoringConfig :: "scoring_config option \<Rightarrow> config_error list" where
  "validateScoringConfig cfg =
     (case cfg of
        None \<Rightarrow> [ConfigNotAnObject]
      | Some c \<Rightarrow>
          (case numbers c of
             None \<Rightarrow> [NumbersNotArrayOf20]
           | Some ns \<Rightarrow> if length ns \<noteq> 20 then [NumbersNotArrayOf20] else [])
          @ (if startAngle c = None then [StartAngleNotNumber] else [])
          @ (if wedgeAngle c = None then [WedgeAngleNotNumber] else [])
          @ (if direction c \<noteq> ''ccw'' \<and> direction c \<noteq> ''cw''
             then [DirectionNotCcwOrCw] else [])
          @ (if ringRatios c = None then [RingRatiosMissing] else [])
          @ (case ringEpsN c of
               JUndefined \<Rightarrow> []
             | JNum v \<Rightarrow> if 0 \<le> v then [] else [RingEpsNInvalid]
             | _ \<Rightarrow> [RingEpsNInvalid]))"

definition config_ok :: "scoring_config \<Rightarrow> bool" where
  "config_ok c \<longleftrightarrow> validateScoringConfig (Some c) = []"

subsection \<open>The board's configuration (board.js)\<close>

definition DARTBOARD_NUMBERS :: "int list" where
  "DARTBOARD_NUMBERS =
     [20, 1, 18, 4, 13,
      6, 10, 15, 2, 17,
      3, 19, 7, 16, 8,
      11, 14, 9, 12, 5]"

definition FACE_SCALE :: real where
  "FACE_SCALE = 512 / 480"

definition boardRingRatios :: ring_ratios where
  "boardRingRatios =
     \<lparr>outer = 1,
      doubleInner = (445 * FACE_SCALE) / 512,
      doubleOuter = 1,
      tripleInner = (275 * FACE_SCALE) / 512,
      tripleOuter = (310 * FACE_SCALE) / 512,
      bullOuter = (70 * FACE_SCALE) / 512,
      dbullOuter = (32 * FACE_SCALE) / 512\<rparr>"

text \<open>
  \<open>boardScoring\<close> is the object \<^verbatim>\<open>group.userData.scoring\<close> of \<open>createDartboard\<close>; it has no
  \<open>boardRadius\<close>. \<open>defaultConfig\<close> is the configuration that \<open>scoreHitAtBoardLocalXY\<close>
  passes to the scoring engine: the board's scoring object with the board's radius, 2.05
  by default.
\<close>

definition boardScoring :: scoring_config where
  "boardScoring =
     \<lparr>wedgeAngle = Some ((pi * 2) / 20),
      startAngle = Some (pi / 2),
      direction = ''cw'',
      angleOffset = Some 0,
      numbers = Some DARTBOARD_NUMBERS,
      ringRatios = Some boardRingRatios,
      ringEpsN = JNum 0.010,
      points = Some \<lparr>bull = Some 25, dbull = Some 50\<rparr>,
      boardRadius = JUndefined\<rparr>"

definition defaultConfig :: scoring_config where
  "defaultConfig = boardScoring\<lparr>boardRadius := JNum 2.05\<rparr>"

text \<open>
  The data model of a board configuration: what a valid configuration satisfies beyond the
  tests of \<open>validateScoringConfig\<close>. Twenty wedges, the numbers 1 to 20 once each, ring
  ratios in the order \<open>dbullOuter < bullOuter < tripleInner < tripleOuter < doubleInner \<le>
  doubleOuter = outer\<close>, a tolerance that is not negative, both bull scores, and a positive
  board radius. The configuration of \<open>createDartboard\<close> is one.
\<close>

definition ratios_ordered :: "ring_ratios \<Rightarrow> bool" where
  "ratios_ordered rr \<longleftrightarrow>
     dbullOuter rr < bullOuter rr \<and> bullOuter rr < tripleInner rr \<and>
     tripleInner rr < tripleOuter rr \<and> tripleOuter rr < doubleInner rr \<and>
     doubleInner rr \<le> doubleOuter rr \<and> doubleOuter rr = outer rr"

definition board_config_valid :: "scoring_config \<Rightarrow> bool" where
  "board_config_valid c \<longleftrightarrow>
     config_ok c \<and>
     wedgeAngle c = Some ((pi * 2) / 20) \<and>
     (case numbers c of
        Some ns \<Rightarrow> length ns = 20 \<and> distinct ns \<and> (\<forall>n \<in> set ns. 1 \<le> n \<and> n \<le> 20)
      | None \<Rightarrow> False) \<and>
     (case ringRatios c of Some rr \<Rightarrow> ratios_ordered rr | None \<Rightarrow> False) \<and>
     (case ringEpsN c of JNum e \<Rightarrow> 0 \<le> e | _ \<Rightarrow> False) \<and>
     (case points c of Some p \<Rightarrow> bull p \<noteq> None \<and> dbull p \<noteq> None | None \<Rightarrow> False) \<and>
     (case boardRadius c of JNum b \<Rightarrow> 0 < b | _ \<Rightarrow> False)"

section \<open>Aim controller (createAimDisc in script\_helpers.js)\<close>

text \<open>
  The constants of the closure of \<open>createAimDisc\<close>: the board's radius and the options,
  each with its default when the option is not a number, and the \<^verbatim>\<open>Math\<close> library that
  the closure calls. The state of the disc is the object \<open>state\<close> of the closure; the mesh
  shows it.
\<close>

record aim_params =
  aim_boardRadius :: real
  maxRadius :: real
  minRadius :: real
  shrinkTime :: real
  discZ :: real
  aim_math :: js_math

record aim_opts =
  opt_maxRadius :: "real option"
  opt_minRadius :: "real option"
  opt_shrinkTime :: "real option"
  opt_z :: "real option"

definition aimParams :: "js_math \<Rightarrow> real option \<Rightarrow> aim_opts \<Rightarrow> aim_params" where
  "aimParams mathLib boardRadiusOfBoard opts =
     \<lparr>aim_boardRadius = (case boardRadiusOfBoard of Some b \<Rightarrow> b | None \<Rightarrow> 2.05),
      maxRadius = (case opt_maxRadius opts of Some v \<Rightarrow> v | None \<Rightarrow> 0.75),
      minRadius = (case opt_minRadius opts of Some v \<Rightarrow> v | None \<Rightarrow> 0.06),
      shrinkTime = (case opt_shrinkTime opts of Some v \<Rightarrow> v | None \<Rightarrow> 1.25),
      discZ = (case opt_z opts of Some v \<Rightarrow> v | None \<Rightarrow> 0.34),
      aim_math = mathLib\<rparr>"

record aim_state =
  enabled :: bool
  time :: real
  holding :: bool
  holdTime :: real
  centerX :: real
  centerY :: real
  radius :: real

definition createAimDisc :: "aim_params \<Rightarrow> aim_state" where
  "createAimDisc p =
     \<lparr>enabled = False, time = 0, holding = False, holdTime = 0,
      centerX = 0, centerY = 0, radius = maxRadius p\<rparr>"

definition setEnabled :: "aim_params \<Rightarrow> bool \<Rightarrow> aim_state \<Rightarrow> aim_state" where
  "setEnabled p e s =
     (let s1 = s\<lparr>enabled := e\<rparr>
      in if \<not> enabled s1 then s1\<lparr>holding := False, holdTime := 0, radius := maxRadius p\<rparr>
         else s1)"

definition beginHold :: "aim_params \<Rightarrow> aim_state \<Rightarrow> aim_state" where
  "beginHold p s = s\<lparr>holding := True, holdTime := 0, radius := maxRadius p\<rparr>"

definition cancelHold :: "aim_params \<Rightarrow> aim_state \<Rightarrow> aim_state" where
  "cancelHold p s = s\<lparr>holding := False, holdTime := 0, radius := maxRadius p\<rparr>"

record shot =
  shot_centerX :: real
  shot_centerY :: real
  shot_radius :: real
  hitX :: real
  hitY :: real

text \<open>
  \<open>releaseAndSampleHit\<close> draws two random numbers; \<open>u1\<close> and \<open>u2\<close> are the values of the
  first and of the second call of \<^verbatim>\<open>Math.random()\<close>. \<^verbatim>\<open>Math.PI\<close> is the double nearest
  to \<open>pi\<close>; every product and sum is rounded.
\<close>

definition releaseAndSampleHit ::
  "aim_params \<Rightarrow> real \<Rightarrow> real \<Rightarrow> aim_state \<Rightarrow> shot \<times> aim_state" where
  "releaseAndSampleHit p u1 u2 s =
     (let finalRadius = radius s;
          angle = fl64 (fl64 (u1 * fl64 pi) * 2);
          r = fl64 (m_sqrt (aim_math p) u2 * finalRadius);
          hx = fl64 (centerX s + fl64 (m_cos (aim_math p) angle * r));
          hy = fl64 (centerY s + fl64 (m_sin (aim_math p) angle * r));
          s' = s\<lparr>holding := False, holdTime := 0, radius := maxRadius p\<rparr>
      in (\<lparr>shot_centerX = centerX s', shot_centerY = centerY s', shot_radius = finalRadius,
           hitX = hx, hitY = hy\<rparr>, s'))"









section \<open>Round bookkeeping and aim input (script.js)\<close>

definition MAX_DARTS_PER_ROUND :: int where
  "MAX_DARTS_PER_ROUND = 10"

text \<open>
  What \<open>scoreHitAtBoardLocalXY\<close> returns: a full result of the scoring engine, or the bare
  object \<^verbatim>\<open>{ points: 0, label: "MISS" }\<close> when the board has no scoring configuration.
  In both, \<open>points\<close> is a number and \<open>label\<close> a string, as \<open>registerThrowScore\<close> tests.
\<close>

datatype scored = Full score_result | Bare int string

record board_data =
  bd_boardRadius :: real
  bd_scoring :: "scoring_config option"

definition scoreHitAtBoardLocalXY :: "board_data \<Rightarrow> real \<Rightarrow> real \<Rightarrow> scored" where
  "scoreHitAtBoardLocalXY board hx hy =
     (case bd_scoring board of
        None \<Rightarrow> Bare 0 ''MISS''
      | Some baseScoring \<Rightarrow>
          Full (scoreFromBoardXY hx hy
                  (Some (baseScoring\<lparr>boardRadius := JNum (bd_boardRadius board)\<rparr>))))"

text \<open>A record of the throw history; a field that the score result lacks is \<open>None\<close>.\<close>

record throw_record =
  th_label :: string
  th_points :: int
  th_ring :: "ring option"
  th_mult :: "nat option"
  th_wedge :: "int option"

text \<open>
  The variables of the script: the round state, the aim disc (\<open>None\<close> until the board is
  placed) and the state of the aim input. The heads-up display, the glow and the flight of
  the dart read this state and do not write it; they are left out.
\<close>

record script_state =
  gameStarted :: bool
  roundActive :: bool
  dartsThrown :: int
  totalScore :: int
  throwHistory :: "throw_record list"
  aimDisc :: "aim_state option"
  isHoldingAim :: bool
  holdPointerId :: "int option"

definition initialScript :: script_state where
  "initialScript =
     \<lparr>gameStarted = False, roundActive = False, dartsThrown = 0, totalScore = 0,
      throwHistory = [], aimDisc = None, isHoldingAim = False, holdPointerId = None\<rparr>"

definition resetRound :: "script_state \<Rightarrow> script_state" where
  "resetRound s = s\<lparr>dartsThrown := 0, totalScore := 0, throwHistory := [], roundActive := True\<rparr>"

definition endRound :: "aim_params \<Rightarrow> script_state \<Rightarrow> script_state" where
  "endRound p s =
     s\<lparr>roundActive := False,
       aimDisc := (case aimDisc s of
                     None \<Rightarrow> None
                   | Some a \<Rightarrow> Some (cancelHold p (setEnabled p False a)))\<rparr>"

definition registerThrowScore :: "aim_params \<Rightarrow> scored \<Rightarrow> script_state \<Rightarrow> script_state" where
  "registerThrowScore p scoreResult s =
     (let pts = (case scoreResult of Full r \<Rightarrow> sr_points r | Bare n l \<Rightarrow> n);
          lbl = (case scoreResult of Full r \<Rightarrow> sr_label r | Bare n l \<Rightarrow> l);
          s1 = s\<lparr>dartsThrown := dartsThrown s + 1,
                 totalScore := totalScore s + pts,
                 throwHistory := throwHistory s @
                   [\<lparr>th_label = lbl, th_points = pts,
                     th_ring = (case scoreResult of Full r \<Rightarrow> Some (sr_ring r) | Bare n l \<Rightarrow> None),
                     th_mult = (case scoreResult of Full r \<Rightarrow> Some (sr_mult r) | Bare n l \<Rightarrow> None),
                     th_wedge = (case scoreResult of Full r \<Rightarrow> sr_wedge r | Bare n l \<Rightarrow> None)\<rparr>]\<rparr>
      in if dartsThrown s1 \<ge> MAX_DARTS_PER_ROUND then endRound p s1 else s1)"

text \<open>
  The pointer handlers. \<open>busy\<close> is the answer of \<^verbatim>\<open>actionManager.isBusy()\<close> at the event,
  \<open>pid\<close> the pointer of the event, \<open>u1\<close> and \<open>u2\<close> the random draws of the release.
\<close>

definition onAimPointerDown :: "aim_params \<Rightarrow> int \<Rightarrow> bool \<Rightarrow> script_state \<Rightarrow> script_state" where
  "onAimPointerDown p pid busy s =
     (if \<not> gameStarted s then s
      else if \<not> roundActive s then s
      else case aimDisc s of
             None \<Rightarrow> s
           | Some a \<Rightarrow>
               if busy then s
               else if isHoldingAim s then s
               else s\<lparr>isHoldingAim := True, holdPointerId := Some pid,
                      aimDisc := Some (beginHold p a)\<rparr>)"

definition onAimPointerUp ::
  "aim_params \<Rightarrow> board_data \<Rightarrow> int \<Rightarrow> bool \<Rightarrow> real \<Rightarrow> real \<Rightarrow> script_state \<Rightarrow> script_state" where
  "onAimPointerUp p board pid busy u1 u2 s =
     (if \<not> gameStarted s then s
      else if \<not> roundActive s then s
      else case aimDisc s of
             None \<Rightarrow> s
           | Some a \<Rightarrow>
               if \<not> isHoldingAim s then s
               else if holdPointerId s \<noteq> Some pid then s
               else
                 (let s1 = s\<lparr>isHoldingAim := False, holdPointerId := None\<rparr>
                  in if busy then s1\<lparr>aimDisc := Some (cancelHold p a)\<rparr>
                     else
                       (let (sh, a1) = releaseAndSampleHit p u1 u2 a;
                            a2 = setEnabled p False a1;
                            scoreResult = scoreHitAtBoardLocalXY board (hitX sh) (hitY sh)
                        in registerThrowScore p scoreResult (s1\<lparr>aimDisc := Some a2\<rparr>))))"

definition onAimPointerCancel :: "aim_params \<Rightarrow> int \<Rightarrow> script_state \<Rightarrow> script_state" where
  "onAimPointerCancel p pid s =
     (if \<not> isHoldingAim s then s
      else if holdPointerId s \<noteq> Some pid then s
      else s\<lparr>isHoldingAim := False, holdPointerId := None,
             aimDisc := (case aimDisc s of None \<Rightarrow> None | Some a \<Rightarrow> Some (cancelHold p a))\<rparr>)"

definition onStartClick :: "aim_params \<Rightarrow> script_state \<Rightarrow> script_state" where
  "onStartClick p s =
     (if gameStarted s then s
      else (let s1 = resetRound (s\<lparr>gameStarted := True\<rparr>)
            in s1\<lparr>aimDisc := (case aimDisc s1 of
                                None \<Rightarrow> None
                              | Some a \<Rightarrow> Some (setEnabled p True a))\<rparr>))"

definition syncBoardToWall :: "aim_params \<Rightarrow> script_state \<Rightarrow> script_state" where
  "syncBoardToWall p s =
     (case aimDisc s of None \<Rightarrow> s\<lparr>aimDisc := Some (createAimDisc p)\<rparr> | Some a \<Rightarrow> s)"

text \<open>
  The states that the script can reach from its initial state: by placing the board, by a
  click on Start, by "play again" (\<open>resetRound\<close>), by the three pointer events, and by a
  frame of the render loop. A frame calls \<open>setEnabled\<close> and \<open>update\<close> of the aim disc and
  nothing else of this state; it is modelled as any change of the aim disc's own state, which
  covers every frame.
\<close>

inductive reachable :: "aim_params \<Rightarrow> board_data \<Rightarrow> script_state \<Rightarrow> bool"
  for p :: aim_params and board :: board_data where
  r_init: "reachable p board initialScript"
| r_sync: "reachable p board s \<Longrightarrow> reachable p board (syncBoardToWall p s)"
| r_start: "reachable p board s \<Longrightarrow> reachable p board (onStartClick p s)"
| r_again: "reachable p board s \<Longrightarrow> reachable p board (resetRound s)"
| r_down: "reachable p board s \<Longrightarrow> reachable p board (onAimPointerDown p pid busy s)"
| r_up: "reachable p board s \<Longrightarrow> reachable p board (onAimPointerUp p board pid busy u1 u2 s)"
| r_cancel: "reachable p board s \<Longrightarrow> reachable p board (onAimPointerCancel p pid s)"
| r_frame: "reachable p board s \<Longrightarrow> aimDisc s = Some a \<Longrightarrow>
            reachable p board (s\<lparr>aimDisc := Some a'\<rparr>)"

text \<open>A sequence of calls of \<open>registerThrowScore\<close>, one for each score result of the list.\<close>

fun registerThrows :: "aim_params \<Rightarrow> scored list \<Rightarrow> script_state \<Rightarrow> script_state" where
  "registerThrows p [] s = s"
| "registerThrows p (r # rs) s = registerThrows p rs (registerThrowScore p r s)"

section \<open>Leaderboard (leaderboard.ts)\<close>

record stored_record =
  score :: real
  submittedAt :: real
  metadata :: "(string \<times> string) list option"

definition SCORE_MULTIPLIER :: real where
  "SCORE_MULTIPLIER = 1000000000000"

definition leaderboardKey :: "string \<Rightarrow> string" where
  "leaderboardKey postId = ''leaderboard:'' @ postId"

definition leaderboardMetaKey :: "string \<Rightarrow> string" where
  "leaderboardMetaKey postId = ''leaderboard:'' @ postId @ '':meta''"

text \<open>\<open>toCompositeScore\<close>: the product is rounded, then the difference.\<close>

definition toCompositeScore :: "real \<Rightarrow> real \<Rightarrow> real" where
  "toCompositeScore sc stamp = fl64 (fl64 (sc * SCORE_MULTIPLIER) - stamp)"

text \<open>
  \<^verbatim>\<open>JSON.stringify\<close> and \<^verbatim>\<open>JSON.parse\<close> are parameters of the model: \<open>stringify\<close>
  renders a stored record, \<open>parse\<close> gives \<open>None\<close> where \<^verbatim>\<open>JSON.parse\<close> throws or yields
  \<^verbatim>\<open>null\<close>.
  \<open>decodeMetadata\<close> takes \<open>None\<close> for a missing value; the empty string is falsy.
\<close>

definition decodeMetadata ::
  "(string \<Rightarrow> stored_record option) \<Rightarrow> string option \<Rightarrow> stored_record option" where
  "decodeMetadata parse v =
     (case v of None \<Rightarrow> None | Some str \<Rightarrow> if str = [] then None else parse str)"

datatype redis_write = HSet string string string | ZAdd string string real

text \<open>
  Modelled from the spec: the remote store behind \<open>RedisLike\<close>, a hash per key (the metadata
  map) and a sorted set per key, the members of a set being distinct. \<open>writes\<close> logs every
  write that is issued.
\<close>

record redis =
  hashes :: "string \<Rightarrow> (string \<rightharpoonup> string)"
  zsets :: "string \<Rightarrow> (string \<times> real) list"
  writes :: "redis_write list"

text \<open>Modelled from the spec: \<open>hGet\<close> reads a field of the metadata map.\<close>

definition hGet :: "redis \<Rightarrow> string \<Rightarrow> string \<Rightarrow> string option" where
  "hGet r key field = hashes r key field"

text \<open>Modelled from the spec: \<open>hSet\<close> writes a field of the metadata map.\<close>

definition hSet :: "redis \<Rightarrow> string \<Rightarrow> string \<Rightarrow> string \<Rightarrow> redis" where
  "hSet r key field v =
     r\<lparr>hashes := (hashes r)(key := (hashes r key)(field \<mapsto> v)),
       writes := writes r @ [HSet key field v]\<rparr>"

text \<open>
  Modelled from the spec: \<open>zAdd\<close> sets the composite score of a member of the sorted set,
  replacing the member's earlier entry.
\<close>

definition zAdd :: "redis \<Rightarrow> string \<Rightarrow> string \<Rightarrow> real \<Rightarrow> redis" where
  "zAdd r key member sc =
     r\<lparr>zsets := (zsets r)(key := (member, sc) # filter (\<lambda>e. fst e \<noteq> member) (zsets r key)),
       writes := writes r @ [ZAdd key member sc]\<rparr>"

text \<open>
  Modelled from the spec: the order of a sorted set, from the lowest to the highest composite
  score; members of equal score are ordered by their names.
\<close>

definition zset_less :: "string \<times> real \<Rightarrow> string \<times> real \<Rightarrow> bool" where
  "zset_less e1 e2 \<longleftrightarrow> snd e1 < snd e2 \<or> (snd e1 = snd e2 \<and> fst e1 < fst e2)"

text \<open>Modelled from the spec: \<open>zCard\<close> is the cardinality of the sorted set.\<close>

definition zCard :: "redis \<Rightarrow> string \<Rightarrow> nat" where
  "zCard r key = length (zsets r key)"

text \<open>
  Modelled from the spec: \<open>zRank\<close> is the member's 0-based position from the lowest to the
  highest composite score, the number of entries before it; \<open>None\<close> (\<^verbatim>\<open>undefined\<close>) for a
  member without entry.
\<close>

definition zRank :: "redis \<Rightarrow> string \<Rightarrow> string \<Rightarrow> nat option" where
  "zRank r key member =
     (case map_of (zsets r key) member of
        None \<Rightarrow> None
      | Some sc \<Rightarrow> Some (length (filter (\<lambda>e. zset_less e (member, sc)) (zsets r key))))"

text \<open>
  \<open>upsertScore\<close>; \<open>now\<close> is the value of \<^verbatim>\<open>Date.now()\<close>. The two writes of
  \<^verbatim>\<open>Promise.all\<close> are issued one after the other.
\<close>

definition upsertScore ::
  "(stored_record \<Rightarrow> string) \<Rightarrow> (string \<Rightarrow> stored_record option) \<Rightarrow> real \<Rightarrow>
   redis \<Rightarrow> string \<Rightarrow> string \<Rightarrow> real \<Rightarrow> (string \<times> string) list option \<Rightarrow>
   stored_record \<times> redis" where
  "upsertScore stringify parse now r postId userId sc md =
     (let metaKey = leaderboardMetaKey postId;
          existing = decodeMetadata parse (hGet r metaKey userId);
          write = (let stamp = now;
                       rec = \<lparr>score = sc, submittedAt = stamp, metadata = md\<rparr>;
                       r1 = hSet r metaKey userId (stringify rec);
                       r2 = zAdd r1 (leaderboardKey postId) userId (toCompositeScore sc stamp)
                   in (rec, r2))
      in case existing of
           None \<Rightarrow> write
         | Some e \<Rightarrow> if score e \<ge> sc then (e, r) else write)"

definition getRankForUser :: "redis \<Rightarrow> string \<Rightarrow> string \<Rightarrow> int option" where
  "getRankForUser r postId userId =
     (let key = leaderboardKey postId;
          rank = zRank r key userId;
          total = zCard r key
      in case rank of None \<Rightarrow> None | Some k \<Rightarrow> Some (int total - int k))"

definition emptyRedis :: redis where
  "emptyRedis = \<lparr>hashes = (\<lambda>key. Map.empty), zsets = (\<lambda>key. []), writes = []\<rparr>"

section \<open>Sample data\<close>

text \<open>The aim disc as the script creates it, on a board of the default radius.\<close>

definition scriptAimParams :: aim_params where
  "scriptAimParams =
     aimParams roundedMath (Some 2.05)
       \<lparr>opt_maxRadius = Some 0.75, opt_minRadius = Some 0.06, opt_shrinkTime = Some 1.25,
        opt_z = Some (fl64 (0.28 + 0.06))\<rparr>"

definition scriptBoard :: board_data where
  "scriptBoard = \<lparr>bd_boardRadius = 2.05, bd_scoring = Some boardScoring\<rparr>"

text \<open>An aim disc in the middle of a hold: 0.5 s held, the radius shrunk to 0.474.\<close>

definition heldAim :: aim_state where
  "heldAim =
     \<lparr>enabled = True, time = 3, holding = True, holdTime = 0.5,
      centerX = 0.2, centerY = 0.1, radius = 0.474\<rparr>"


text \<open>A hit on the centre of the board, and a round of ten of them.\<close>

definition bullseyeHit :: scored where
  "bullseyeHit = Full (scoreFromBoardXY 0 0 (Some defaultConfig))"

definition tenBullseyes :: "scored list" where
  "tenBullseyes =
     [bullseyeHit, bullseyeHit, bullseyeHit, bullseyeHit, bullseyeHit,
      bullseyeHit, bullseyeHit, bullseyeHit, bullseyeHit, bullseyeHit]"

definition completedRound :: script_state where
  "completedRound = registerThrows scriptAimParams tenBullseyes (resetRound initialScript)"

text \<open>
  A configuration that passes \<open>validateScoringConfig\<close> and leaves the tolerance out.
\<close>

definition configWithoutEps :: scoring_config where
  "configWithoutEps = defaultConfig\<lparr>ringEpsN := JUndefined\<rparr>"



text \<open>
  A release at the rim of the disc: the largest double below 1 as the second random number,
  a disc of radius \<open>1/4 - 2^-55\<close> (the double just below \<open>1/4\<close>) centred at \<open>(1, 0)\<close>.
  \<open>rimOffset\<close> is the distance \<open>r\<close> that the release computes there.
\<close>

definition lastBelowOne :: real where
  "lastBelowOne = 1 - 1 / 2 ^ 53"

definition rimRadius :: real where
  "rimRadius = 1 / 4 - 1 / 2 ^ 55"

definition rimOffset :: real where
  "rimOffset = 1 / 4 - 1 / 2 ^ 54"

definition rimAim :: aim_state where
  "rimAim =
     \<lparr>enabled = True, time = 3, holding = True, holdTime = 1,
      centerX = 1, centerY = 0, radius = rimRadius\<rparr>"

text \<open>
  A store with one record, a score of 100 for \<open>alice\<close>, and a codec that knows the two
  records of the example.
\<close>

definition aliceBest :: stored_record where
  "aliceBest = \<lparr>score = 100, submittedAt = 1700000000000, metadata = None\<rparr>"

definition aliceBetter :: stored_record where
  "aliceBetter = \<lparr>score = 150, submittedAt = 1700000050000, metadata = None\<rparr>"

definition sampleStringify :: "stored_record \<Rightarrow> string" where
  "sampleStringify rec = (if score rec = 100 then ''best100'' else ''best150'')"

definition sampleParse :: "string \<Rightarrow> stored_record option" where
  "sampleParse str =
     (if str = ''best100'' then Some aliceBest
      else if str = ''best150'' then Some aliceBetter
      else None)"

definition aliceStore :: redis where
  "aliceStore =
     snd (upsertScore sampleStringify sampleParse 1700000000000 emptyRedis
            ''post'' ''alice'' 100 None)"

text \<open>The store after A has submitted 100 and then B 200.\<close>

definition twoPlayerStore :: redis where
  "twoPlayerStore =
     snd (upsertScore sampleStringify sampleParse 1700000050000
            (snd (upsertScore sampleStringify sampleParse 1700000000000 emptyRedis
                    ''post'' ''A'' 100 None))
            ''post'' ''B'' 200 None)"

section \<open>Invariant of the round\<close>

definition round_inv :: "script_state \<Rightarrow> bool" where
  "round_inv s \<longleftrightarrow>
     0 \<le> dartsThrown s \<and> dartsThrown s \<le> MAX_DARTS_PER_ROUND \<and>
     (roundActive s \<longrightarrow> dartsThrown s < MAX_DARTS_PER_ROUND)"

section \<open>Properties of the rounding\<close>

lemma pow2_pos [simp]: "0 < pow2 e"
  by (simp add: pow2_def)

lemma pow2_nonzero [simp]: "pow2 e \<noteq> 0"
  by (simp add: pow2_def)

lemma pow2_nonneg [simp]: "0 \<le> pow2 e"
  by (simp add: pow2_def)

lemma pow2_add: "pow2 (a + b) = pow2 a * pow2 b"
  by (simp add: pow2_def powr_add)

lemma pow2_diff: "pow2 (a - b) = pow2 a / pow2 b"
  by (simp add: pow2_def powr_diff)

lemma pow2_mono: "a \<le> b \<Longrightarrow> pow2 a \<le> pow2 b"
  by (simp add: pow2_def)

lemma pow2_less_iff: "pow2 a < pow2 b \<longleftrightarrow> a < b"
  by (simp add: pow2_def)

lemma pow2_le_iff: "pow2 a \<le> pow2 b \<longleftrightarrow> a \<le> b"
  by (simp add: pow2_def)

lemma pow2_nat: "0 \<le> e \<Longrightarrow> pow2 e = of_int (2 ^ nat e)"
  by (simp add: pow2_def powr_real_of_int)

lemma pow2_0 [simp]: "pow2 0 = 1"
  by (simp add: pow2_def)

lemma rne_of_int [simp]: "rne (of_int n) = n"
  by (simp add: rne_def)

lemma rne_cases: "rne y = \<lfloor>y\<rfloor> \<or> rne y = \<lfloor>y\<rfloor> + 1"
  by (simp add: rne_def Let_def)

lemma rne_near: "\<bar>of_int (rne y) - y\<bar> \<le> 1/2"
  unfolding rne_def Let_def by (auto; linarith)

lemma rne_eq: "\<bar>y - of_int n\<bar> < 1/2 \<Longrightarrow> rne y = n"
proof -
  assume a: "\<bar>y - of_int n\<bar> < 1/2"
  have "\<bar>of_int (rne y) - y\<bar> \<le> 1/2" by (rule rne_near)
  with a have "\<bar>of_int (rne y) - (of_int n :: real)\<bar> < 1" by linarith
  then have "\<bar>of_int (rne y - n) :: real\<bar> < 1" by simp
  then have "\<bar>rne y - n\<bar> < 1" by linarith
  then show ?thesis by simp
qed

lemma rne_mono: "x \<le> y \<Longrightarrow> rne x \<le> rne y"
proof -
  assume xy: "x \<le> y"
  then have f: "\<lfloor>x\<rfloor> \<le> \<lfloor>y\<rfloor>" by (rule floor_mono)
  show ?thesis
  proof (cases "\<lfloor>x\<rfloor> = \<lfloor>y\<rfloor>")
    case True
    with xy show ?thesis unfolding rne_def Let_def by (auto; linarith)
  next
    case False
    with f have "\<lfloor>x\<rfloor> + 1 \<le> \<lfloor>y\<rfloor>" by simp
    moreover have "rne x \<le> \<lfloor>x\<rfloor> + 1" using rne_cases [of x] by auto
    moreover have "\<lfloor>y\<rfloor> \<le> rne y" using rne_cases [of y] by auto
    ultimately show ?thesis by linarith
  qed
qed

lemma rne_0 [simp]: "rne 0 = 0"
  by (simp add: rne_def)

lemma rne_nonneg: "0 \<le> y \<Longrightarrow> 0 \<le> rne y"
  using rne_mono [of 0 y] by simp

lemma rne_le_half: "0 \<le> y \<Longrightarrow> y \<le> 1/2 \<Longrightarrow> rne y = 0"
proof -
  assume a: "0 \<le> y" "y \<le> 1/2"
  then have "\<lfloor>y\<rfloor> = 0" by (simp add: floor_eq_iff)
  with a show ?thesis by (simp add: rne_def)
qed

lemma floor_log2_eq:
  assumes "0 < a" "pow2 k \<le> a" "a < pow2 (k + 1)"
  shows "\<lfloor>log 2 a\<rfloor> = k"
  using assms by (simp add: floor_log_eq_powr_iff pow2_def)

lemma floor_log2_bounds:
  assumes "0 < a"
  shows "pow2 \<lfloor>log 2 a\<rfloor> \<le> a" "a < pow2 (\<lfloor>log 2 a\<rfloor> + 1)"
  using assms floor_log_eq_powr_iff [of a 2 "\<lfloor>log 2 a\<rfloor>"] by (simp_all add: pow2_def)


lemma float_exp_abs: "float_exp \<bar>x\<bar> = float_exp x"
  by (simp add: float_exp_def)

lemma float_exp_ge: "- 1074 \<le> float_exp x"
  by (simp add: float_exp_def)

lemma fl64_0 [simp]: "fl64 0 = 0"
  by (simp add: fl64_def)

lemma fl64_pos:
  "0 < a \<Longrightarrow> fl64 a = of_int (rne (a / pow2 (float_exp a))) * pow2 (float_exp a)"
  by (simp add: fl64_def)

lemma fl64_minus: "fl64 (- x) = - fl64 x"
  by (simp add: fl64_def float_exp_def sgn_minus)

lemma fl64_abs: "fl64 x = sgn x * fl64 \<bar>x\<bar>"
  by (cases "x = 0") (simp_all add: fl64_def float_exp_def sgn_real_def)

lemma fl64_nonneg: "0 \<le> x \<Longrightarrow> 0 \<le> fl64 x"
proof (cases "x = 0")
  case True then show ?thesis by simp
next
  case False
  assume "0 \<le> x"
  with False have p: "0 < x" by simp
  then have "0 \<le> x / pow2 (float_exp x)" by (auto intro: divide_nonneg_pos less_imp_le)
  then have "0 \<le> rne (x / pow2 (float_exp x))" by (rule rne_nonneg)
  with p show ?thesis by (simp add: fl64_pos)
qed

lemma fl64_exact_pos:
  assumes m: "0 < m" "m < 2 ^ 53" and e: "- 1074 \<le> e"
  shows "fl64 (of_int m * pow2 e) = of_int m * pow2 e"
proof -
  let ?x = "of_int m * pow2 e :: real"
  let ?fe = "float_exp ?x"
  have xp: "0 < ?x" using m by simp
  have "(of_int m :: real) < of_int (2 ^ 53)" using m by (simp only: of_int_less_iff)
  then have "(of_int m :: real) < pow2 53" by (simp add: pow2_nat)
  then have "?x < pow2 53 * pow2 e" by simp
  then have ub: "?x < pow2 (e + 53)" by (simp add: pow2_add mult.commute)
  have "pow2 \<lfloor>log 2 ?x\<rfloor> \<le> ?x" using xp by (rule floor_log2_bounds)
  with ub have "pow2 \<lfloor>log 2 ?x\<rfloor> < pow2 (e + 53)" by linarith
  then have "\<lfloor>log 2 ?x\<rfloor> < e + 53" by (simp add: pow2_less_iff)
  then have fe: "?fe \<le> e" using e xp by (simp add: float_exp_def)
  then have p: "pow2 (e - ?fe) = of_int (2 ^ nat (e - ?fe))" by (simp add: pow2_nat)
  have "?x / pow2 ?fe = of_int m * pow2 (e - ?fe)"
    by (simp add: pow2_diff)
  also have "\<dots> = of_int (m * 2 ^ nat (e - ?fe))"
    by (simp only: p of_int_mult)
  finally have "?x / pow2 ?fe = of_int (m * 2 ^ nat (e - ?fe))" .
  then have "rne (?x / pow2 ?fe) = m * 2 ^ nat (e - ?fe)"
    by (simp only: rne_of_int)
  then have "fl64 ?x = of_int (m * 2 ^ nat (e - ?fe)) * pow2 ?fe"
    using xp by (simp only: fl64_pos)
  also have "\<dots> = of_int m * (pow2 (e - ?fe) * pow2 ?fe)"
    using fe by (simp add: pow2_nat)
  also have "\<dots> = ?x" by (simp add: pow2_diff)
  finally show ?thesis .
qed

lemma fl64_exact:
  assumes m: "\<bar>m\<bar> < 2 ^ 53" and e: "- 1074 \<le> e"
  shows "fl64 (of_int m * pow2 e) = of_int m * pow2 e"
proof -
  consider "m = 0" | "0 < m" | "m < 0" by linarith
  then show ?thesis
  proof cases
    case 1 then show ?thesis by simp
  next
    case 2 with m e show ?thesis by (simp add: fl64_exact_pos)
  next
    case 3
    with m have "0 < - m" "- m < 2 ^ 53" by simp_all
    then have "fl64 (of_int (- m) * pow2 e) = of_int (- m) * pow2 e"
      using e by (rule fl64_exact_pos)
    then have "fl64 (- (of_int m * pow2 e)) = - (of_int m * pow2 e)" by simp
    then show ?thesis by (simp only: fl64_minus neg_equal_iff_equal)
  qed
qed

lemma fl64_int:
  assumes "\<bar>n\<bar> \<le> 2 ^ 53"
  shows "fl64 (of_int n) = of_int n"
proof (cases "\<bar>n\<bar> < 2 ^ 53")
  case True
  then have "fl64 (of_int n * pow2 0) = of_int n * pow2 0" by (rule fl64_exact) simp
  then show ?thesis by simp
next
  case False
  with assms have "n = 2 ^ 53 \<or> n = - (2 ^ 53)" by linarith
  moreover have "fl64 (of_int (2 ^ 52) * pow2 1) = of_int (2 ^ 52) * pow2 1"
    by (rule fl64_exact) simp_all
  then have "fl64 (of_int (2 ^ 53)) = of_int (2 ^ 53)" by (simp add: pow2_def)
  ultimately show ?thesis using fl64_minus [of "of_int (2 ^ 53)"] by auto
qed

lemma fl64_le_pow2:
  assumes x: "0 < x" "x \<le> pow2 j"
  shows "fl64 x \<le> pow2 j"
proof -
  let ?fe = "float_exp x"
  have k: "pow2 \<lfloor>log 2 x\<rfloor> \<le> x" using x(1) by (rule floor_log2_bounds)
  with x(2) have "pow2 \<lfloor>log 2 x\<rfloor> \<le> pow2 j" by linarith
  then have kj: "\<lfloor>log 2 x\<rfloor> \<le> j" by (simp add: pow2_le_iff)
  show ?thesis
  proof (cases "?fe \<le> j")
    case True
    then have p: "pow2 (j - ?fe) = of_int (2 ^ nat (j - ?fe))" by (simp add: pow2_nat)
    have "x / pow2 ?fe \<le> pow2 j / pow2 ?fe"
      using x(2) by (simp add: divide_right_mono)
    also have "\<dots> = of_int (2 ^ nat (j - ?fe))" using p by (simp add: pow2_diff)
    finally have "rne (x / pow2 ?fe) \<le> rne (of_int (2 ^ nat (j - ?fe)))" by (rule rne_mono)
    then have "rne (x / pow2 ?fe) \<le> 2 ^ nat (j - ?fe)" by (simp only: rne_of_int)
    then have "(of_int (rne (x / pow2 ?fe)) :: real) \<le> of_int (2 ^ nat (j - ?fe))"
      by (simp only: of_int_le_iff)
    then have "of_int (rne (x / pow2 ?fe)) * pow2 ?fe \<le> of_int (2 ^ nat (j - ?fe)) * pow2 ?fe"
      by (rule mult_right_mono) simp
    also have "\<dots> = pow2 (j - ?fe) * pow2 ?fe" by (simp only: p)
    also have "\<dots> = pow2 j" by (simp add: pow2_diff)
    finally show ?thesis using x(1) by (simp only: fl64_pos)
  next
    case False
    with kj x(1) have fe: "?fe = - 1074" and j: "j < - 1074"
      by (auto simp add: float_exp_def max_def split: if_splits)
    from j have "pow2 j \<le> pow2 (- 1075)" by (simp add: pow2_le_iff)
    with x(2) have "x \<le> pow2 (- 1075)" by linarith
    then have "x / pow2 (- 1074) \<le> pow2 (- 1075) / pow2 (- 1074)"
      by (simp add: divide_right_mono)
    also have "\<dots> = pow2 (- 1)" using pow2_diff [of "- 1075" "- 1074"] by simp
    also have "\<dots> = 1 / 2" by (simp add: pow2_def powr_minus_divide)
    finally have "x / pow2 (- 1074) \<le> 1 / 2" .
    moreover have "0 \<le> x / pow2 (- 1074)"
      using x(1) by (auto intro: divide_nonneg_pos less_imp_le)
    ultimately have "rne (x / pow2 (- 1074)) = 0" by (intro rne_le_half)
    then have "fl64 x = 0" using x(1) fe by (simp add: fl64_pos)
    then show ?thesis by simp
  qed
qed

lemma float_exp_floor:
  "0 < x \<Longrightarrow> \<lfloor>log 2 x\<rfloor> = k \<Longrightarrow> float_exp x = max (k - 52) (- 1074)"
  by (simp add: float_exp_def)

lemma fl64_ge_pow2:
  assumes x: "0 < x" and kdef: "\<lfloor>log 2 x\<rfloor> = k" and n: "- 1022 \<le> k"
  shows "pow2 k \<le> fl64 x"
proof -
  have fe: "float_exp x = k - 52" using float_exp_floor [OF x kdef] n by simp
  have k: "pow2 k \<le> x" using floor_log2_bounds(1) [OF x] kdef by simp
  have "(of_int (2 ^ 52) :: real) = pow2 52" by (simp add: pow2_nat)
  also have "\<dots> = pow2 k / pow2 (k - 52)" using pow2_diff [of k "k - 52"] by simp
  also have "\<dots> \<le> x / pow2 (k - 52)" using k by (simp add: divide_right_mono)
  finally have "rne (of_int (2 ^ 52)) \<le> rne (x / pow2 (k - 52))" by (rule rne_mono)
  then have "2 ^ 52 \<le> rne (x / pow2 (k - 52))" by (simp only: rne_of_int)
  then have "(of_int (2 ^ 52) :: real) \<le> of_int (rne (x / pow2 (k - 52)))"
    by (simp only: of_int_le_iff)
  then have le: "of_int (2 ^ 52) * pow2 (k - 52)
                   \<le> of_int (rne (x / pow2 (k - 52))) * pow2 (k - 52)"
    by (rule mult_right_mono) simp
  have "pow2 k = pow2 52 * pow2 (k - 52)"
    using pow2_add [of 52 "k - 52"] by simp
  also have "\<dots> = of_int (2 ^ 52) * pow2 (k - 52)"
    by (simp add: pow2_nat)
  also note le
  also have "of_int (rne (x / pow2 (k - 52))) * pow2 (k - 52) = fl64 x"
    using x fe by (simp only: fl64_pos)
  finally show ?thesis .
qed

lemma fl64_mono_pos:
  assumes x: "0 < x" and xy: "x \<le> y"
  shows "fl64 x \<le> fl64 y"
proof -
  have y: "0 < y" using x xy by linarith
  define kx where "kx = \<lfloor>log 2 x\<rfloor>"
  define ky where "ky = \<lfloor>log 2 y\<rfloor>"
  have "log 2 x \<le> log 2 y" using x xy by simp
  then have kk: "kx \<le> ky" unfolding kx_def ky_def by (rule floor_mono)
  have fx: "float_exp x = max (kx - 52) (- 1074)"
    using x by (intro float_exp_floor) (simp_all add: kx_def)
  have fy: "float_exp y = max (ky - 52) (- 1074)"
    using y by (intro float_exp_floor) (simp_all add: ky_def)
  show ?thesis
  proof (cases "float_exp x = float_exp y")
    case True
    have "x / pow2 (float_exp y) \<le> y / pow2 (float_exp y)"
      using xy by (simp add: divide_right_mono)
    then have "rne (x / pow2 (float_exp y)) \<le> rne (y / pow2 (float_exp y))" by (rule rne_mono)
    then have "(of_int (rne (x / pow2 (float_exp y))) :: real)
                 \<le> of_int (rne (y / pow2 (float_exp y)))"
      by (simp only: of_int_le_iff)
    then have "of_int (rne (x / pow2 (float_exp y))) * pow2 (float_exp y)
                 \<le> of_int (rne (y / pow2 (float_exp y))) * pow2 (float_exp y)"
      by (rule mult_right_mono) simp
    then show ?thesis using x y True by (simp add: fl64_pos)
  next
    case False
    with fx fy kk have ny: "- 1022 \<le> ky" and klt: "kx + 1 \<le> ky"
      by (auto simp add: max_def split: if_splits)
    have "x < pow2 (kx + 1)" using floor_log2_bounds(2) [OF x] by (simp add: kx_def)
    then have "fl64 x \<le> pow2 (kx + 1)"
      using x by (intro fl64_le_pow2) simp_all
    also have "\<dots> \<le> pow2 ky" using klt by (simp only: pow2_le_iff)
    also have "\<dots> \<le> fl64 y" using y _ ny by (rule fl64_ge_pow2) (simp add: ky_def)
    finally show ?thesis .
  qed
qed

lemma fl64_mono:
  assumes xy: "x \<le> y"
  shows "fl64 x \<le> fl64 y"
proof -
  consider "0 < x" | "x \<le> 0" "0 \<le> y" | "y < 0" by linarith
  then show ?thesis
  proof cases
    case 1 then show ?thesis using xy by (rule fl64_mono_pos)
  next
    case 2
    then have "0 \<le> fl64 (- x)" "0 \<le> fl64 y" by (simp_all add: fl64_nonneg)
    then show ?thesis by (simp add: fl64_minus)
  next
    case 3
    with xy have "0 < - y" "- y \<le> - x" by simp_all
    then have "fl64 (- y) \<le> fl64 (- x)" by (rule fl64_mono_pos)
    then show ?thesis by (simp add: fl64_minus)
  qed
qed

lemma fl64_error:
  "\<bar>fl64 x - x\<bar> \<le> \<bar>x\<bar> * pow2 (- 53) + pow2 (- 1075)"
proof (cases "x = 0")
  case True then show ?thesis by simp
next
  case False
  define a where "a = \<bar>x\<bar>"
  have a: "0 < a" using False by (simp add: a_def)
  let ?fe = "float_exp a"
  have "\<bar>of_int (rne (a / pow2 ?fe)) - a / pow2 ?fe\<bar> \<le> 1 / 2" by (rule rne_near)
  then have "\<bar>of_int (rne (a / pow2 ?fe)) - a / pow2 ?fe\<bar> * pow2 ?fe \<le> 1 / 2 * pow2 ?fe"
    by (rule mult_right_mono) simp
  moreover have "\<bar>of_int (rne (a / pow2 ?fe)) - a / pow2 ?fe\<bar> * pow2 ?fe =
        \<bar>of_int (rne (a / pow2 ?fe)) * pow2 ?fe - a\<bar>"
  proof -
    have "\<bar>of_int (rne (a / pow2 ?fe)) - a / pow2 ?fe\<bar> * pow2 ?fe =
          \<bar>(of_int (rne (a / pow2 ?fe)) - a / pow2 ?fe) * pow2 ?fe\<bar>"
      by (simp add: abs_mult)
    also have "(of_int (rne (a / pow2 ?fe)) - a / pow2 ?fe) * pow2 ?fe =
          of_int (rne (a / pow2 ?fe)) * pow2 ?fe - a"
      by (simp add: left_diff_distrib)
    finally show ?thesis .
  qed
  ultimately have e1: "\<bar>fl64 a - a\<bar> \<le> pow2 ?fe / 2" using a by (simp add: fl64_pos)
  have e2: "pow2 ?fe / 2 \<le> a * pow2 (- 53) + pow2 (- 1075)"
  proof (cases "?fe = - 1074")
    case True
    have "pow2 (- 1074) / 2 = pow2 (- 1074) * pow2 (- 1)"
      by (simp add: pow2_def powr_minus_divide)
    also have "\<dots> = pow2 (- 1075)" using pow2_add [of "- 1074" "- 1"] by simp
    finally show ?thesis using True a by simp
  next
    case False
    then have fe: "?fe = \<lfloor>log 2 a\<rfloor> - 52" using a by (simp add: float_exp_def max_def split: if_splits)
    have "pow2 ?fe / 2 = pow2 ?fe * pow2 (- 1)" by (simp add: pow2_def powr_minus_divide)
    also have "\<dots> = pow2 (\<lfloor>log 2 a\<rfloor> - 53)"
      using pow2_add [of ?fe "- 1"] fe by simp
    also have "\<dots> = pow2 \<lfloor>log 2 a\<rfloor> * pow2 (- 53)"
      using pow2_add [of "\<lfloor>log 2 a\<rfloor>" "- 53"] by simp
    also have "\<dots> \<le> a * pow2 (- 53)"
      using floor_log2_bounds(1) [OF a] by (intro mult_right_mono) simp_all
    finally show ?thesis by (simp add: add_increasing2)
  qed
  have "\<bar>fl64 x - x\<bar> = \<bar>fl64 a - a\<bar>"
  proof (cases "0 < x")
    case True then show ?thesis by (simp add: a_def)
  next
    case F: False
    with \<open>x \<noteq> 0\<close> have "x < 0" by simp
    then have "a = - x" by (simp add: a_def)
    then show ?thesis by (simp add: fl64_minus)
  qed
  with e1 e2 show ?thesis by (simp add: a_def)
qed

lemma fl64_eval:
  assumes a: "0 < a" and lo: "pow2 k \<le> a" and hi: "a < pow2 (k + 1)"
    and n: "\<bar>a / pow2 (max (k - 52) (- 1074)) - of_int n\<bar> < 1 / 2"
  shows "fl64 a = of_int n * pow2 (max (k - 52) (- 1074))"
proof -
  have "\<lfloor>log 2 a\<rfloor> = k" using a lo hi by (rule floor_log2_eq)
  then have fe: "float_exp a = max (k - 52) (- 1074)" using a by (simp add: float_exp_def)
  from n have "rne (a / pow2 (max (k - 52) (- 1074))) = n" by (rule rne_eq)
  with a fe show ?thesis by (simp add: fl64_pos)
qed

lemma fl64_eval_rne:
  assumes a: "0 < a" and lo: "pow2 k \<le> a" and hi: "a < pow2 (k + 1)"
  shows "fl64 a = of_int (rne (a / pow2 (max (k - 52) (- 1074)))) * pow2 (max (k - 52) (- 1074))"
proof -
  have "\<lfloor>log 2 a\<rfloor> = k" using a lo hi by (rule floor_log2_eq)
  then have fe: "float_exp a = max (k - 52) (- 1074)" using a by (simp add: float_exp_def)
  with a show ?thesis by (simp add: fl64_pos)
qed

lemma pow2_numeral_simps:
  "pow2 (numeral n) = 2 ^ numeral n"
  "pow2 (- numeral n) = 1 / 2 ^ numeral n"
  "pow2 1 = 2" "pow2 (- 1) = 1 / 2"
  by (simp_all add: pow2_def powr_neg_numeral powr_minus_divide)

lemma pow2_m53: "pow2 (- 53) = 1 / 9007199254740992"
  by (simp add: pow2_def powr_neg_numeral)

lemma pow2_m52: "pow2 (- 52) = 2 / 9007199254740992"
  by (simp add: pow2_def powr_neg_numeral)

lemma pow2_m49: "pow2 (- 49) = 16 / 9007199254740992"
  by (simp add: pow2_def powr_neg_numeral)

lemma pow2_m1072: "pow2 (- 1072) = 8 * pow2 (- 1075)"
  using pow2_add [of 3 "- 1075"] by (simp add: pow2_def)

lemma fl64_one: "fl64 1 = 1"
  using fl64_int [of 1] by simp

lemma fl64_err: "\<bar>fl64 x - x\<bar> \<le> \<bar>x\<bar> / 9007199254740992 + pow2 (- 1075)"
  using fl64_error [of x] by (simp add: pow2_m53)

text \<open>A value in \<open>[-1, 1]\<close> is rounded with an error of at most \<open>2^-52\<close>.\<close>

lemma fl64_unit_error:
  assumes "\<bar>x\<bar> \<le> 1"
  shows "\<bar>fl64 x - x\<bar> \<le> pow2 (- 52)"
proof -
  have "pow2 (- 1075) \<le> pow2 (- 53)" by (rule pow2_mono) simp
  then have e: "pow2 (- 1075) \<le> 1 / 9007199254740992" by (simp add: pow2_m53)
  have "\<bar>x\<bar> / 9007199254740992 \<le> 1 / 9007199254740992"
    using assms by (intro divide_right_mono) simp_all
  with fl64_err [of x] e have "\<bar>fl64 x - x\<bar> \<le> 2 / 9007199254740992" by linarith
  then show ?thesis by (simp add: pow2_m52)
qed

text \<open>The correctly rounded square root maps \<open>[0, 1]\<close> into \<open>[0, 1]\<close>.\<close>

lemma fl64_sqrt_unit:
  assumes "0 \<le> v" "v \<le> 1"
  shows "0 \<le> fl64 (sqrt v) \<and> fl64 (sqrt v) \<le> 1"
proof -
  have "0 \<le> fl64 (sqrt v)" using assms by (intro fl64_nonneg) simp
  moreover have "sqrt v \<le> 1" using assms by simp
  then have "fl64 (sqrt v) \<le> fl64 1" by (rule fl64_mono)
  ultimately show ?thesis by (simp add: fl64_one)
qed

section \<open>Properties of the scoring engine\<close>



lemma defaultConfig_valid: "board_config_valid defaultConfig"
  by (simp add: board_config_valid_def config_ok_def validateScoringConfig_def defaultConfig_def
      boardScoring_def DARTBOARD_NUMBERS_def ratios_ordered_def boardRingRatios_def
      FACE_SCALE_def)

lemma defaultConfig_fields:
  "ringRatios defaultConfig = Some boardRingRatios"
  "boardRadius defaultConfig = JNum 2.05"
  "points defaultConfig = Some \<lparr>bull = Some 25, dbull = Some 50\<rparr>"
  "startAngle defaultConfig = Some (pi / 2)"
  by (simp_all add: defaultConfig_def boardScoring_def)




text \<open>
  Claim C10. When \<open>ringEpsN\<close> is absent, not a number, not finite or negative, the tolerance
  is the default 0.01: every comparison of the ring classifier is made with 0.01, so a hit
  up to 0.01 beyond the outer rim is still on the board.
\<close>

theorem default_ring_tolerance:
  assumes bad: "ringEpsN cfg = JUndefined \<or> \<not> typeof_number (ringEpsN cfg) \<or>
                ringEpsN cfg = JNaN \<or> (\<exists>b. ringEpsN cfg = JInf b) \<or>
                (\<exists>v. ringEpsN cfg = JNum v \<and> v < 0)"
    and rr: "ringRatios cfg = Some rr"
  shows "getRingEpsN cfg = 0.01 \<and>
         ringFromRadiusRatio rNorm cfg =
           Some (if rNorm > outer rr + 0.01 then \<lparr>ri_ring = MISS, ri_mult = 0\<rparr>
                 else if rNorm \<le> dbullOuter rr + 0.01 then \<lparr>ri_ring = DBULL, ri_mult = 0\<rparr>
                 else if rNorm \<le> bullOuter rr + 0.01 then \<lparr>ri_ring = SBULL, ri_mult = 0\<rparr>
                 else if rNorm \<ge> doubleInner rr - 0.01 \<and> rNorm \<le> doubleOuter rr + 0.01
                   then \<lparr>ri_ring = DOUBLE, ri_mult = 2\<rparr>
                 else if rNorm \<ge> tripleInner rr - 0.01 \<and> rNorm \<le> tripleOuter rr + 0.01
                   then \<lparr>ri_ring = TRIPLE, ri_mult = 3\<rparr>
                 else \<lparr>ri_ring = SINGLE, ri_mult = 1\<rparr>) \<and>
         (outer rr < rNorm \<and> rNorm \<le> outer rr + 0.01 \<longrightarrow>
            (\<exists>res. ringFromRadiusRatio rNorm cfg = Some res \<and> ri_ring res \<noteq> MISS))"
proof -
  have e: "getRingEpsN cfg = 0.01"
    using bad by (auto simp add: getRingEpsN_def split: jsval.split)
  show ?thesis
    using rr e by (simp add: ringFromRadiusRatio_def Let_def)
qed

theorem default_ring_tolerance_witness:
  "ringEpsN configWithoutEps = JUndefined \<and>
   ringRatios configWithoutEps = Some boardRingRatios \<and>
   getRingEpsN configWithoutEps = 0.01 \<and>
   outer boardRingRatios < 1.005 \<and> (1.005::real) \<le> outer boardRingRatios + 0.01 \<and>
   ringFromRadiusRatio 1.005 configWithoutEps = Some \<lparr>ri_ring = DOUBLE, ri_mult = 2\<rparr>"
proof -
  have u: "ringEpsN configWithoutEps = JUndefined"
    by (simp add: configWithoutEps_def)
  then have bad: "ringEpsN configWithoutEps = JUndefined \<or>
      \<not> typeof_number (ringEpsN configWithoutEps) \<or>
      ringEpsN configWithoutEps = JNaN \<or> (\<exists>b. ringEpsN configWithoutEps = JInf b) \<or>
      (\<exists>v. ringEpsN configWithoutEps = JNum v \<and> v < 0)"
    by simp
  have rr: "ringRatios configWithoutEps = Some boardRingRatios"
    by (simp add: configWithoutEps_def defaultConfig_fields)
  have facts: "outer boardRingRatios < 1.005 \<and> (1.005::real) \<le> outer boardRingRatios + 0.01"
    by (simp add: boardRingRatios_def)
  from default_ring_tolerance [OF bad rr, of "1.005"]
  have "getRingEpsN configWithoutEps = 0.01 \<and>
        ringFromRadiusRatio 1.005 configWithoutEps = Some \<lparr>ri_ring = DOUBLE, ri_mult = 2\<rparr>"
    by (simp add: boardRingRatios_def FACE_SCALE_def)
  with u rr facts show ?thesis by simp
qed



lemma bullseye_result:
  "scoreFromBoardXY 0 0 (Some defaultConfig) =
     \<lparr>sr_points = 50, sr_label = ''DBULL'', sr_wedge = None, sr_wedgeIndex = None,
      sr_mult = 0, sr_ring = DBULL, sr_angle = 0, sr_radius = 0, sr_rNorm = 0\<rparr>"
  by (simp add: scoreFromBoardXY_def defaultConfig_def boardScoring_def DARTBOARD_NUMBERS_def
      ringFromRadiusRatio_def getRingEpsN_def boardRingRatios_def FACE_SCALE_def Let_def)



lemma normAngle_zero: "normAngle0To2Pi 0 = 0"
  by (simp add: normAngle0To2Pi_def js_fmod_def js_trunc_def Let_def)

lemma wedge_index_at_center:
  assumes w: "wedgeAngle cfg = Some w" and w0: "w \<noteq> 0"
    and sa: "startAngle cfg = Some sa"
    and a: "normAngle0To2Pi (theta + (case angleOffset cfg of Some v \<Rightarrow> v | None \<Rightarrow> 0)) = sa"
  shows "wedgeIndexFromAngle theta cfg = Some 0"
  using w w0 sa a by (simp add: wedgeIndexFromAngle_def Let_def normAngle_zero js_rem_def)

text \<open>
  Claim C9. On a valid board configuration, whatever its direction and its angle offset, an
  angle whose offset-adjusted, normalised value is \<open>startAngle\<close> (so that delta is 0) has
  wedge index 0: with the configuration's own direction, with \<open>cw\<close> and with \<open>ccw\<close>.
\<close>

theorem wedge_zero_at_startAngle:
  assumes valid: "board_config_valid cfg"
    and sa: "startAngle cfg = Some sa"
    and a: "normAngle0To2Pi (theta + (case angleOffset cfg of Some v \<Rightarrow> v | None \<Rightarrow> 0)) = sa"
  shows "wedgeIndexFromAngle theta cfg = Some 0 \<and>
         wedgeIndexFromAngle theta (cfg\<lparr>direction := ''cw''\<rparr>) = Some 0 \<and>
         wedgeIndexFromAngle theta (cfg\<lparr>direction := ''ccw''\<rparr>) = Some 0"
proof -
  from valid have w: "wedgeAngle cfg = Some ((pi * 2) / 20)"
    by (simp add: board_config_valid_def)
  have w0: "(pi * 2) / 20 \<noteq> (0::real)" by simp
  show ?thesis
    using wedge_index_at_center [OF w w0 sa a]
      wedge_index_at_center [of "cfg\<lparr>direction := ''cw''\<rparr>" "(pi * 2) / 20" sa theta]
      wedge_index_at_center [of "cfg\<lparr>direction := ''ccw''\<rparr>" "(pi * 2) / 20" sa theta]
      w sa a by simp
qed

theorem wedge_zero_at_startAngle_witness:
  "board_config_valid defaultConfig \<and> startAngle defaultConfig = Some (pi / 2) \<and>
   normAngle0To2Pi (pi / 2 + (case angleOffset defaultConfig of Some v \<Rightarrow> v | None \<Rightarrow> 0))
     = pi / 2 \<and>
   wedgeIndexFromAngle (pi / 2) defaultConfig = Some 0"
proof -
  have sa: "startAngle defaultConfig = Some (pi / 2)"
    by (rule defaultConfig_fields)
  have a: "normAngle0To2Pi
             (pi / 2 + (case angleOffset defaultConfig of Some v \<Rightarrow> v | None \<Rightarrow> 0)) = pi / 2"
    by (simp add: defaultConfig_def boardScoring_def normAngle0To2Pi_def js_fmod_def
        js_trunc_def Let_def)
  from wedge_zero_at_startAngle [OF defaultConfig_valid sa a] defaultConfig_valid sa a
  show ?thesis by simp
qed

section \<open>Properties of the aim controller\<close>

text \<open>One coordinate of the sampled hit: the error against the exact offset.\<close>

lemma coordinate_error:
  fixes c C \<rho> cx A E :: real
  assumes acc: "\<bar>c - C\<bar> \<le> 2 / 9007199254740992" and C1: "\<bar>C\<bar> \<le> 1"
    and A: "\<bar>\<rho>\<bar> \<le> A" and E: "E = pow2 (- 1075)"
  shows "\<bar>fl64 (cx + fl64 (c * \<rho>)) - cx - C * \<rho>\<bar>
           \<le> \<bar>cx\<bar> / 9007199254740992 + 5 * A / 9007199254740992 + 3 * E"
proof -
  define px where "px = fl64 (c * \<rho>)"
  define hx where "hx = fl64 (cx + px)"
  define T where "T = \<bar>c * \<rho>\<bar>"
  define D where "D = \<bar>(c - C) * \<rho>\<bar>"
  have E0: "0 \<le> E" by (simp add: E)
  have A0: "0 \<le> A" using A by linarith
  have c1: "\<bar>c\<bar> \<le> 4503599627370497 / 4503599627370496" using acc C1 by linarith
  have "\<bar>c\<bar> * \<bar>\<rho>\<bar> \<le> (4503599627370497 / 4503599627370496) * A"
    using c1 A by (intro mult_mono) simp_all
  then have T: "T \<le> 4503599627370497 * A / 4503599627370496" by (simp add: T_def abs_mult)
  have T0: "0 \<le> T" by (simp add: T_def)
  have e3: "\<bar>px - c * \<rho>\<bar> \<le> T / 9007199254740992 + E"
    unfolding px_def T_def E by (rule fl64_err)
  have e4a: "\<bar>hx - (cx + px)\<bar> \<le> \<bar>cx + px\<bar> / 9007199254740992 + E"
    unfolding hx_def E by (rule fl64_err)
  have "\<bar>cx + px\<bar> / 9007199254740992 \<le> (\<bar>cx\<bar> + \<bar>px\<bar>) / 9007199254740992"
    by (intro divide_right_mono) simp_all
  with e4a have e4: "\<bar>hx - (cx + px)\<bar> \<le> \<bar>cx\<bar> / 9007199254740992 + \<bar>px\<bar> / 9007199254740992 + E"
    by (simp add: add_divide_distrib)
  have "D = \<bar>c - C\<bar> * \<bar>\<rho>\<bar>" by (simp add: D_def abs_mult)
  also have "\<dots> \<le> (2 / 9007199254740992) * A"
    using acc A by (intro mult_mono) simp_all
  finally have e5: "D \<le> 2 * A / 9007199254740992" by simp
  have P: "\<bar>px\<bar> \<le> T + T / 9007199254740992 + E"
    using e3 unfolding T_def by linarith
  have split: "hx - cx - C * \<rho> = (hx - (cx + px)) + (px - c * \<rho>) + (c - C) * \<rho>"
    by (simp add: algebra_simps)
  have tri: "\<bar>hx - cx - C * \<rho>\<bar> \<le> \<bar>hx - (cx + px)\<bar> + \<bar>px - c * \<rho>\<bar> + D"
    unfolding split D_def by linarith
  from P have P2: "\<bar>px\<bar> / 9007199254740992 \<le> (T + T / 9007199254740992 + E) / 9007199254740992"
    by (intro divide_right_mono) simp_all
  from tri e3 e4 e5 P2 T T0 E0 A0
  have "\<bar>hx - cx - C * \<rho>\<bar> \<le> \<bar>cx\<bar> / 9007199254740992 + 5 * A / 9007199254740992 + 3 * E"
    by (simp add: add_divide_distrib)
  then show ?thesis by (simp add: hx_def px_def)
qed

lemma offset_radius_bound:
  fixes q R E :: real
  assumes q: "0 \<le> q" "q \<le> 1" and E: "E = pow2 (- 1075)"
  shows "\<bar>fl64 (q * R)\<bar> \<le> \<bar>R\<bar> * (1 + 1 / 9007199254740992) + E"
proof -
  define X where "X = q * R"
  have "\<bar>X\<bar> = q * \<bar>R\<bar>" using q by (simp add: abs_mult X_def)
  also have "\<dots> \<le> 1 * \<bar>R\<bar>" using q by (intro mult_right_mono) simp_all
  finally have qr: "\<bar>X\<bar> \<le> \<bar>R\<bar>" by simp
  then have qr2: "\<bar>X\<bar> / 9007199254740992 \<le> \<bar>R\<bar> / 9007199254740992"
    by (intro divide_right_mono) simp_all
  have "\<bar>fl64 X - X\<bar> \<le> \<bar>X\<bar> / 9007199254740992 + E"
    unfolding E by (rule fl64_err)
  with qr qr2 have "\<bar>fl64 X\<bar> \<le> \<bar>R\<bar> + \<bar>R\<bar> / 9007199254740992 + E" by linarith
  then show ?thesis by (simp add: X_def distrib_left)
qed

lemma rounded_point_distance:
  fixes C S \<rho> ex ey :: real
  assumes cs: "C\<^sup>2 + S\<^sup>2 = 1"
  shows "sqrt ((C * \<rho> + ex)\<^sup>2 + (S * \<rho> + ey)\<^sup>2) \<le> \<bar>\<rho>\<bar> + \<bar>ex\<bar> + \<bar>ey\<bar>"
proof -
  have "(C * \<rho>)\<^sup>2 + (S * \<rho>)\<^sup>2 = (C\<^sup>2 + S\<^sup>2) * \<rho>\<^sup>2"
    by (simp add: power_mult_distrib distrib_right)
  then have "sqrt ((C * \<rho>)\<^sup>2 + (S * \<rho>)\<^sup>2) = \<bar>\<rho>\<bar>" by (simp add: cs)
  moreover have "sqrt ((C * \<rho> + ex)\<^sup>2 + (S * \<rho> + ey)\<^sup>2)
        \<le> sqrt ((C * \<rho>)\<^sup>2 + (S * \<rho>)\<^sup>2) + sqrt (ex\<^sup>2 + ey\<^sup>2)"
    by (rule real_sqrt_sum_squares_triangle_ineq)
  moreover have "sqrt (ex\<^sup>2 + ey\<^sup>2) \<le> \<bar>ex\<bar> + \<bar>ey\<bar>"
    by (rule sqrt_sum_squares_le_sum_abs)
  ultimately show ?thesis by linarith
qed

text \<open>
  Claim C6, as amended. For every aim state and every pair of draws \<open>u1\<close>, \<open>u2\<close> in
  \<open>[0, 1]\<close>, with a \<^verbatim>\<open>Math\<close> library whose \<open>sqrt\<close> maps \<open>[0, 1]\<close> into \<open>[0, 1]\<close> and whose
  \<open>cos\<close> and \<open>sin\<close> are within \<open>2^-52\<close> of the exact values, the shot that
  \<open>releaseAndSampleHit\<close> returns lies in the disc of the returned radius around the returned
  centre up to the rounding of the double arithmetic:
  \<open>(hitX - centerX)^2 + (hitY - centerY)^2 \<le>
   (|radius| * (1 + 2^-49) + (|centerX| + |centerY|) * 2^-53 + 2^-1072)^2\<close>.
  The returned radius is the radius at the release (the shrunk one), not the radius the
  state is reset to, and the returned centre is the centre of the state.
\<close>

theorem sampled_hit_near_disc:
  assumes u1: "0 \<le> u1" "u1 \<le> 1" and u2: "0 \<le> u2" "u2 \<le> 1"
    and lib: "\<forall>v. 0 \<le> v \<and> v \<le> 1 \<longrightarrow>
                0 \<le> m_sqrt (aim_math p) v \<and> m_sqrt (aim_math p) v \<le> 1"
    and cs: "\<forall>x. \<bar>m_cos (aim_math p) x - cos x\<bar> \<le> pow2 (- 52)"
    and sn: "\<forall>x. \<bar>m_sin (aim_math p) x - sin x\<bar> \<le> pow2 (- 52)"
    and rel: "releaseAndSampleHit p u1 u2 s = (sh, s')"
  shows "(hitX sh - shot_centerX sh)\<^sup>2 + (hitY sh - shot_centerY sh)\<^sup>2
           \<le> (\<bar>shot_radius sh\<bar> * (1 + pow2 (- 49)) +
               (\<bar>shot_centerX sh\<bar> + \<bar>shot_centerY sh\<bar>) * pow2 (- 53) + pow2 (- 1072))\<^sup>2 \<and>
         shot_radius sh = radius s \<and> shot_centerX sh = centerX s \<and> shot_centerY sh = centerY s"
proof -
  define E where "E = pow2 (- 1075)"
  define a where "a = fl64 (fl64 (u1 * fl64 pi) * 2)"
  define \<rho> where "\<rho> = fl64 (m_sqrt (aim_math p) u2 * radius s)"
  define A where "A = \<bar>radius s\<bar> * (1 + 1 / 9007199254740992) + E"
  define ex where "ex = fl64 (centerX s + fl64 (m_cos (aim_math p) a * \<rho>)) - centerX s - cos a * \<rho>"
  define ey where "ey = fl64 (centerY s + fl64 (m_sin (aim_math p) a * \<rho>)) - centerY s - sin a * \<rho>"
  have E0: "0 \<le> E" by (simp add: E_def)
  have sh: "sh = fst (releaseAndSampleHit p u1 u2 s)" using rel by simp
  have fields: "shot_radius sh = radius s" "shot_centerX sh = centerX s"
    "shot_centerY sh = centerY s"
    "hitX sh = fl64 (centerX s + fl64 (m_cos (aim_math p) a * \<rho>))"
    "hitY sh = fl64 (centerY s + fl64 (m_sin (aim_math p) a * \<rho>))"
    unfolding sh a_def \<rho>_def by (simp_all add: releaseAndSampleHit_def Let_def)
  have sq: "0 \<le> m_sqrt (aim_math p) u2" "m_sqrt (aim_math p) u2 \<le> 1"
    using lib u2 by simp_all
  have A: "\<bar>\<rho>\<bar> \<le> A" unfolding \<rho>_def A_def using sq E_def by (rule offset_radius_bound)
  have exb: "\<bar>ex\<bar> \<le> \<bar>centerX s\<bar> / 9007199254740992 + 5 * A / 9007199254740992 + 3 * E"
    unfolding ex_def using cs A E_def by (intro coordinate_error) (simp_all add: pow2_m52)
  have eyb: "\<bar>ey\<bar> \<le> \<bar>centerY s\<bar> / 9007199254740992 + 5 * A / 9007199254740992 + 3 * E"
    unfolding ey_def using sn A E_def by (intro coordinate_error) (simp_all add: pow2_m52)
  have dx: "hitX sh - shot_centerX sh = cos a * \<rho> + ex" by (simp add: fields ex_def)
  have dy: "hitY sh - shot_centerY sh = sin a * \<rho> + ey" by (simp add: fields ey_def)
  have "sqrt ((cos a * \<rho> + ex)\<^sup>2 + (sin a * \<rho> + ey)\<^sup>2) \<le> \<bar>\<rho>\<bar> + \<bar>ex\<bar> + \<bar>ey\<bar>"
    by (rule rounded_point_distance) simp
  moreover have "A = \<bar>radius s\<bar> + \<bar>radius s\<bar> / 9007199254740992 + E"
    by (simp add: A_def distrib_left)
  moreover have "0 \<le> \<bar>radius s\<bar>" by simp
  ultimately
  have "sqrt ((cos a * \<rho> + ex)\<^sup>2 + (sin a * \<rho> + ey)\<^sup>2)
        \<le> \<bar>radius s\<bar> + 16 * \<bar>radius s\<bar> / 9007199254740992 +
           \<bar>centerX s\<bar> / 9007199254740992 + \<bar>centerY s\<bar> / 9007199254740992 + 8 * E"
    using A exb eyb E0 by linarith
  then have d: "sqrt ((cos a * \<rho> + ex)\<^sup>2 + (sin a * \<rho> + ey)\<^sup>2)
        \<le> \<bar>radius s\<bar> * (1 + 16 / 9007199254740992) +
           (\<bar>centerX s\<bar> + \<bar>centerY s\<bar>) / 9007199254740992 + 8 * E"
    by (simp add: distrib_left add_divide_distrib)
  let ?b = "\<bar>radius s\<bar> * (1 + 16 / 9007199254740992) +
           (\<bar>centerX s\<bar> + \<bar>centerY s\<bar>) / 9007199254740992 + 8 * E"
  have "(cos a * \<rho> + ex)\<^sup>2 + (sin a * \<rho> + ey)\<^sup>2
          = (sqrt ((cos a * \<rho> + ex)\<^sup>2 + (sin a * \<rho> + ey)\<^sup>2))\<^sup>2"
    by simp
  also have "\<dots> \<le> ?b\<^sup>2" using d by (intro power_mono) simp_all
  finally have "(hitX sh - shot_centerX sh)\<^sup>2 + (hitY sh - shot_centerY sh)\<^sup>2 \<le> ?b\<^sup>2"
    by (simp only: dx dy)
  moreover have "?b = \<bar>shot_radius sh\<bar> * (1 + pow2 (- 49)) +
               (\<bar>shot_centerX sh\<bar> + \<bar>shot_centerY sh\<bar>) * pow2 (- 53) + pow2 (- 1072)"
    by (simp add: fields pow2_m49 pow2_m53 pow2_m1072 E_def)
  ultimately show ?thesis using fields by simp
qed


theorem sampled_hit_near_disc_witness:
  "(0::real) \<le> 1 / 4 \<and> (1 / 4 :: real) \<le> 1 \<and>
   (hitX (fst (releaseAndSampleHit scriptAimParams (1 / 4) (1 / 4) heldAim)) -
      shot_centerX (fst (releaseAndSampleHit scriptAimParams (1 / 4) (1 / 4) heldAim)))\<^sup>2 +
   (hitY (fst (releaseAndSampleHit scriptAimParams (1 / 4) (1 / 4) heldAim)) -
      shot_centerY (fst (releaseAndSampleHit scriptAimParams (1 / 4) (1 / 4) heldAim)))\<^sup>2
     \<le> (\<bar>shot_radius (fst (releaseAndSampleHit scriptAimParams (1 / 4) (1 / 4) heldAim))\<bar> *
           (1 + pow2 (- 49)) +
         (\<bar>shot_centerX (fst (releaseAndSampleHit scriptAimParams (1 / 4) (1 / 4) heldAim))\<bar> +
          \<bar>shot_centerY (fst (releaseAndSampleHit scriptAimParams (1 / 4) (1 / 4) heldAim))\<bar>) *
           pow2 (- 53) +
         pow2 (- 1072))\<^sup>2 \<and>
   shot_radius (fst (releaseAndSampleHit scriptAimParams (1 / 4) (1 / 4) heldAim))
     = radius heldAim \<and>
   shot_centerX (fst (releaseAndSampleHit scriptAimParams (1 / 4) (1 / 4) heldAim))
     = centerX heldAim \<and>
   shot_centerY (fst (releaseAndSampleHit scriptAimParams (1 / 4) (1 / 4) heldAim))
     = centerY heldAim"
proof -
  have m: "aim_math scriptAimParams = roundedMath"
    by (simp add: scriptAimParams_def aimParams_def)
  have lib: "\<forall>v. 0 \<le> v \<and> v \<le> 1 \<longrightarrow>
      0 \<le> m_sqrt (aim_math scriptAimParams) v \<and> m_sqrt (aim_math scriptAimParams) v \<le> 1"
    by (simp add: m roundedMath_def fl64_sqrt_unit)
  have cs: "\<forall>x. \<bar>m_cos (aim_math scriptAimParams) x - cos x\<bar> \<le> pow2 (- 52)"
    by (simp add: m roundedMath_def fl64_unit_error)
  have sn: "\<forall>x. \<bar>m_sin (aim_math scriptAimParams) x - sin x\<bar> \<le> pow2 (- 52)"
    by (simp add: m roundedMath_def fl64_unit_error)
  have rel: "releaseAndSampleHit scriptAimParams (1 / 4) (1 / 4) heldAim =
      (fst (releaseAndSampleHit scriptAimParams (1 / 4) (1 / 4) heldAim),
       snd (releaseAndSampleHit scriptAimParams (1 / 4) (1 / 4) heldAim))"
    by simp
  have u: "(0::real) \<le> 1 / 4" "(1 / 4 :: real) \<le> 1" by simp_all
  from u sampled_hit_near_disc [OF u u lib cs sn rel] show ?thesis by blast
qed

lemma sqrt_near_one:
  "1 - 1 / 2 ^ 53 \<le> sqrt (1 - 1 / 2 ^ 53)" "sqrt (1 - 1 / 2 ^ 53) < 1 - 1 / 2 ^ 54"
proof -
  have "(1 - 1 / 2 ^ 53 :: real)\<^sup>2 \<le> 1 - 1 / 2 ^ 53" by (simp add: power2_eq_square)
  then show "1 - 1 / 2 ^ 53 \<le> sqrt (1 - 1 / 2 ^ 53)" by (rule real_le_rsqrt)
  have "(1 - 1 / 2 ^ 53 :: real) < (1 - 1 / 2 ^ 54)\<^sup>2" by (simp add: power2_eq_square)
  then show "sqrt (1 - 1 / 2 ^ 53) < 1 - 1 / 2 ^ 54"
    by (intro real_less_lsqrt) simp_all
qed

lemma sqrt_rounds_down: "fl64 (sqrt lastBelowOne) = lastBelowOne"
proof -
  let ?a = "sqrt (1 - 1 / 2 ^ 53) :: real"
  note b = sqrt_near_one
  have "fl64 ?a = of_int (2 ^ 53 - 1) * pow2 (max (- 1 - 52) (- 1074))"
  proof (rule fl64_eval)
    show "0 < ?a" using b(1) by simp
    show "pow2 (- 1) \<le> ?a" using b(1) by (simp add: pow2_numeral_simps)
    show "?a < pow2 (- 1 + 1)" using b(2) by simp
    show "\<bar>?a / pow2 (max (- 1 - 52) (- 1074)) - of_int (2 ^ 53 - 1)\<bar> < 1 / 2"
      using b by (simp add: pow2_numeral_simps abs_less_iff)
  qed
  then show ?thesis by (simp add: pow2_numeral_simps lastBelowOne_def)
qed

lemma offset_rounds: "fl64 (lastBelowOne * rimRadius) = rimOffset"
proof -
  let ?a = "(1 - 1 / 2 ^ 53) * (1 / 4 - 1 / 2 ^ 55) :: real"
  have "fl64 ?a = of_int (2 ^ 53 - 2) * pow2 (max (- 3 - 52) (- 1074))"
    by (rule fl64_eval) (simp_all add: pow2_numeral_simps)
  then show ?thesis by (simp add: pow2_numeral_simps lastBelowOne_def rimRadius_def rimOffset_def)
qed

lemma offset_exact: "fl64 rimOffset = rimOffset"
  using fl64_exact [of "2 ^ 52 - 1" "- 54"] by (simp add: pow2_numeral_simps rimOffset_def)

lemma sum_rounds_up: "fl64 (1 + rimOffset) = 5 / 4"
proof -
  let ?a = "1 + (1 / 4 - 1 / 2 ^ 54) :: real"
  have "fl64 ?a = of_int (5 * 2 ^ 50) * pow2 (max (0 - 52) (- 1074))"
    by (rule fl64_eval) (simp_all add: pow2_numeral_simps)
  then show ?thesis by (simp add: pow2_numeral_simps rimOffset_def)
qed

text \<open>
  The claim C6 as stated fails in double arithmetic. With the largest double below 1 as the
  second random number and the angle 0, on a disc of radius \<open>1/4 - 2^-55\<close> centred at
  \<open>(1, 0)\<close>, the distance \<open>r\<close> is \<open>1/4 - 2^-54\<close> and the sum \<open>1 + r\<close> rounds to \<open>5/4\<close>: the
  hit is at the distance \<open>1/4\<close> of the centre, beyond the returned radius.
\<close>

theorem sampled_hit_outside_disc:
  "(0::real) \<le> 0 \<and> 0 \<le> lastBelowOne \<and> lastBelowOne < 1 \<and>
   hitX (fst (releaseAndSampleHit scriptAimParams 0 lastBelowOne rimAim)) = 5 / 4 \<and>
   hitY (fst (releaseAndSampleHit scriptAimParams 0 lastBelowOne rimAim)) = 0 \<and>
   shot_centerX (fst (releaseAndSampleHit scriptAimParams 0 lastBelowOne rimAim)) = 1 \<and>
   shot_centerY (fst (releaseAndSampleHit scriptAimParams 0 lastBelowOne rimAim)) = 0 \<and>
   shot_radius (fst (releaseAndSampleHit scriptAimParams 0 lastBelowOne rimAim))
     = 1 / 4 - 1 / 2 ^ 55 \<and>
   (shot_radius (fst (releaseAndSampleHit scriptAimParams 0 lastBelowOne rimAim)))\<^sup>2 <
   (hitX (fst (releaseAndSampleHit scriptAimParams 0 lastBelowOne rimAim)) -
      shot_centerX (fst (releaseAndSampleHit scriptAimParams 0 lastBelowOne rimAim)))\<^sup>2 +
   (hitY (fst (releaseAndSampleHit scriptAimParams 0 lastBelowOne rimAim)) -
      shot_centerY (fst (releaseAndSampleHit scriptAimParams 0 lastBelowOne rimAim)))\<^sup>2"
proof -
  have sh: "fst (releaseAndSampleHit scriptAimParams 0 lastBelowOne rimAim) =
      \<lparr>shot_centerX = 1, shot_centerY = 0, shot_radius = rimRadius,
       hitX = 5 / 4, hitY = 0\<rparr>"
    by (simp add: releaseAndSampleHit_def Let_def scriptAimParams_def aimParams_def
        roundedMath_def rimAim_def fl64_one sqrt_rounds_down offset_rounds offset_exact
        sum_rounds_up)
  show ?thesis unfolding sh by (simp add: power2_eq_square rimRadius_def lastBelowOne_def)
qed






section \<open>Properties of the round\<close>

lemma endRound_fields:
  "dartsThrown (endRound p s) = dartsThrown s"
  "totalScore (endRound p s) = totalScore s"
  "roundActive (endRound p s) = False"
  by (simp_all add: endRound_def)

lemma registerThrowScore_darts:
  "dartsThrown (registerThrowScore p r s) = dartsThrown s + 1"
  by (simp add: registerThrowScore_def Let_def endRound_fields)

lemma registerThrowScore_total:
  "totalScore (registerThrowScore p r s) =
     totalScore s + (case r of Full x \<Rightarrow> sr_points x | Bare n l \<Rightarrow> n)"
  by (simp add: registerThrowScore_def Let_def endRound_fields)

lemma registerThrowScore_active:
  "roundActive (registerThrowScore p r s) \<longleftrightarrow>
     roundActive s \<and> dartsThrown s + 1 < MAX_DARTS_PER_ROUND"
  by (auto simp add: registerThrowScore_def Let_def endRound_fields)

lemma registerThrows_darts:
  "dartsThrown (registerThrows p rs s) = dartsThrown s + int (length rs)"
  by (induction rs arbitrary: s) (simp_all add: registerThrowScore_darts)

lemma registerThrows_total:
  "totalScore (registerThrows p rs s) =
     totalScore s + (\<Sum>r\<leftarrow>rs. case r of Full x \<Rightarrow> sr_points x | Bare n l \<Rightarrow> n)"
  by (induction rs arbitrary: s) (simp_all add: registerThrowScore_total)

lemma registerThrows_active:
  "roundActive (registerThrows p rs s) \<longleftrightarrow>
     roundActive s \<and> (rs = [] \<or> dartsThrown s + int (length rs) < MAX_DARTS_PER_ROUND)"
  by (induction rs arbitrary: s)
     (auto simp add: registerThrowScore_active registerThrowScore_darts)

lemma onAimPointerUp_inactive:
  "\<not> roundActive s \<Longrightarrow> onAimPointerUp p board pid busy u1 u2 s = s"
  by (simp add: onAimPointerUp_def)

lemma round_inv_register:
  "round_inv s \<Longrightarrow> roundActive s \<Longrightarrow> round_inv (registerThrowScore p r s)"
  by (auto simp add: round_inv_def registerThrowScore_darts registerThrowScore_active)

lemma round_inv_aim:
  "round_inv (s\<lparr>aimDisc := a\<rparr>) = round_inv s"
  "round_inv (s\<lparr>isHoldingAim := b, holdPointerId := h\<rparr>) = round_inv s"
  "round_inv (s\<lparr>isHoldingAim := b, holdPointerId := h, aimDisc := a\<rparr>) = round_inv s"
  by (simp_all add: round_inv_def)

lemma round_inv_up:
  assumes "round_inv s"
  shows "round_inv (onAimPointerUp p board pid busy u1 u2 s)"
proof (cases "gameStarted s \<and> roundActive s \<and> isHoldingAim s \<and>
              holdPointerId s = Some pid \<and> \<not> busy")
  case False
  with assms show ?thesis
    by (auto simp add: onAimPointerUp_def Let_def round_inv_aim split: option.split)
next
  case True
  show ?thesis
  proof (cases "aimDisc s")
    case None
    with assms show ?thesis by (simp add: onAimPointerUp_def)
  next
    case (Some a)
    let ?s1 = "s\<lparr>isHoldingAim := False, holdPointerId := None\<rparr>"
    have inv1: "\<And>a2. round_inv (?s1\<lparr>aimDisc := Some a2\<rparr>)"
      using assms by (simp add: round_inv_def)
    have act1: "\<And>a2. roundActive (?s1\<lparr>aimDisc := Some a2\<rparr>)"
      using True by simp
    show ?thesis
      using True Some round_inv_register [OF inv1 act1]
      by (simp add: onAimPointerUp_def Let_def split: prod.split)
  qed
qed

lemma reachable_round_inv: "reachable p board s \<Longrightarrow> round_inv s"
proof (induction rule: reachable.induct)
  case r_init
  show ?case by (simp add: round_inv_def initialScript_def MAX_DARTS_PER_ROUND_def)
next
  case (r_sync s)
  then show ?case by (simp add: syncBoardToWall_def round_inv_def split: option.split)
next
  case (r_start s)
  then show ?case
    by (simp add: onStartClick_def resetRound_def round_inv_def Let_def MAX_DARTS_PER_ROUND_def)
next
  case (r_again s)
  then show ?case by (simp add: resetRound_def round_inv_def MAX_DARTS_PER_ROUND_def)
next
  case (r_down s pid busy)
  then show ?case by (simp add: onAimPointerDown_def round_inv_def split: option.split)
next
  case (r_up s pid busy u1 u2)
  then show ?case by (simp add: round_inv_up)
next
  case (r_cancel s pid)
  then show ?case by (simp add: onAimPointerCancel_def round_inv_def)
next
  case (r_frame s a a')
  then show ?case by (simp add: round_inv_def)
qed

lemma tenBullseyes_facts:
  "length tenBullseyes = 10"
  "(\<Sum>r\<leftarrow>tenBullseyes. case r of Full x \<Rightarrow> sr_points x | Bare n l \<Rightarrow> n) = 500"
  "tenBullseyes \<noteq> []"
  by (simp_all add: tenBullseyes_def bullseyeHit_def bullseye_result)

lemma completedRound_facts:
  "dartsThrown completedRound = 10" "\<not> roundActive completedRound"
  "totalScore completedRound = 500"
  unfolding completedRound_def
  by (simp_all add: registerThrows_darts registerThrows_active registerThrows_total
      tenBullseyes_facts resetRound_def initialScript_def MAX_DARTS_PER_ROUND_def)

text \<open>
  Claim C2, as amended. From a fresh round (\<open>resetRound\<close>), ten calls of
  \<open>registerThrowScore\<close> leave \<open>dartsThrown = 10\<close> and the round complete (\<open>roundActive\<close>
  false). \<open>registerThrowScore\<close> itself has no test of the round: the test is in its only
  caller, \<open>onAimPointerUp\<close>, which changes nothing while the round is not active. So an
  eleventh throw that arrives through \<open>onAimPointerUp\<close> has no effect on \<open>totalScore\<close> (nor
  on any other part of the state), and every state that the script reaches satisfies
  \<open>0 \<le> dartsThrown \<le> maxDarts\<close>.
\<close>

theorem round_completion:
  "(length rs = 10 \<longrightarrow>
      dartsThrown (registerThrows p rs (resetRound s0)) = 10 \<and>
      \<not> roundActive (registerThrows p rs (resetRound s0)) \<and>
      onAimPointerUp p board pid busy u1 u2 (registerThrows p rs (resetRound s0))
        = registerThrows p rs (resetRound s0)) \<and>
   (\<not> roundActive s \<longrightarrow>
      totalScore (onAimPointerUp p board pid busy u1 u2 s) = totalScore s) \<and>
   (reachable p board s' \<longrightarrow> 0 \<le> dartsThrown s' \<and> dartsThrown s' \<le> MAX_DARTS_PER_ROUND)"
proof -
  have a: "length rs = 10 \<longrightarrow>
      dartsThrown (registerThrows p rs (resetRound s0)) = 10 \<and>
      \<not> roundActive (registerThrows p rs (resetRound s0))"
    by (auto simp add: registerThrows_darts registerThrows_active resetRound_def
        MAX_DARTS_PER_ROUND_def)
  have b: "reachable p board s' \<longrightarrow>
      0 \<le> dartsThrown s' \<and> dartsThrown s' \<le> MAX_DARTS_PER_ROUND"
    using reachable_round_inv [of p board s'] by (simp add: round_inv_def)
  from a b show ?thesis by (simp add: onAimPointerUp_inactive)
qed

theorem round_completion_witness:
  "length tenBullseyes = 10 \<and> dartsThrown completedRound = 10 \<and>
   \<not> roundActive completedRound \<and>
   onAimPointerUp scriptAimParams scriptBoard 1 False 0.5 0.5 completedRound = completedRound \<and>
   reachable scriptAimParams scriptBoard (resetRound initialScript) \<and>
   dartsThrown (resetRound initialScript) \<le> MAX_DARTS_PER_ROUND"
proof -
  have l: "length tenBullseyes = 10" by (rule tenBullseyes_facts)
  have r: "reachable scriptAimParams scriptBoard (resetRound initialScript)"
    by (rule r_again, rule r_init)
  from round_completion [of tenBullseyes scriptAimParams initialScript scriptBoard 1 False
      "0.5" "0.5" completedRound "resetRound initialScript"] l r
  show ?thesis by (simp add: completedRound_def)
qed

text \<open>
  The claim C2 as stated fails for the throw-registration operation itself: after a round
  of ten bullseyes (500 points), an eleventh call of \<open>registerThrowScore\<close> adds its 50 points
  and counts an eleventh dart.
\<close>

theorem unguarded_eleventh_throw_is_counted:
  "dartsThrown completedRound = 10 \<and> \<not> roundActive completedRound \<and>
   totalScore completedRound = 500 \<and>
   totalScore (registerThrowScore scriptAimParams bullseyeHit completedRound) = 550 \<and>
   dartsThrown (registerThrowScore scriptAimParams bullseyeHit completedRound) = 11"
  by (simp add: completedRound_facts registerThrowScore_total registerThrowScore_darts
      bullseyeHit_def bullseye_result)

section \<open>Properties of the leaderboard\<close>

lemma hGet_after_write:
  "hGet (zAdd (hSet r key field v) key' member sc) key field = Some v"
  by (simp add: hGet_def hSet_def zAdd_def)

lemma aliceStore_record:
  "decodeMetadata sampleParse (hGet aliceStore (leaderboardMetaKey ''post'') ''alice'')
     = Some aliceBest"
  by (simp add: aliceStore_def upsertScore_def Let_def decodeMetadata_def hGet_def hSet_def
      zAdd_def emptyRedis_def sampleStringify_def sampleParse_def)

text \<open>
  Claim C3. When the stored record of the user decodes to \<open>e\<close>, \<open>upsertScore\<close> with a score
  that is not above \<open>score e\<close> returns \<open>e\<close> and the store as it was: no write is logged, and
  neither the metadata map nor the sorted set changes. The stored score never goes down:
  whatever the new score is, if the record that would be written decodes again, the record
  stored afterwards has a score that is at least \<open>score e\<close>.
\<close>

theorem upsert_lower_score_noop:
  assumes dec: "decodeMetadata parse (hGet r (leaderboardMetaKey postId) userId) = Some e"
  shows "(sc \<le> score e \<longrightarrow>
            upsertScore stringify parse now r postId userId sc md = (e, r) \<and>
            writes (snd (upsertScore stringify parse now r postId userId sc md)) = writes r \<and>
            hashes (snd (upsertScore stringify parse now r postId userId sc md)) = hashes r \<and>
            zsets (snd (upsertScore stringify parse now r postId userId sc md)) = zsets r) \<and>
         (stringify \<lparr>score = sc, submittedAt = now, metadata = md\<rparr> \<noteq> [] \<and>
          parse (stringify \<lparr>score = sc, submittedAt = now, metadata = md\<rparr>)
            = Some \<lparr>score = sc, submittedAt = now, metadata = md\<rparr> \<longrightarrow>
            (\<exists>e'. decodeMetadata parse
                     (hGet (snd (upsertScore stringify parse now r postId userId sc md))
                        (leaderboardMetaKey postId) userId) = Some e' \<and>
                   score e \<le> score e'))"
proof -
  have noop: "sc \<le> score e \<Longrightarrow> upsertScore stringify parse now r postId userId sc md = (e, r)"
    using dec by (simp add: upsertScore_def Let_def)
  have mono: "\<exists>e'. decodeMetadata parse
                     (hGet (snd (upsertScore stringify parse now r postId userId sc md))
                        (leaderboardMetaKey postId) userId) = Some e' \<and>
                   score e \<le> score e'"
    if codec: "stringify \<lparr>score = sc, submittedAt = now, metadata = md\<rparr> \<noteq> [] \<and>
          parse (stringify \<lparr>score = sc, submittedAt = now, metadata = md\<rparr>)
            = Some \<lparr>score = sc, submittedAt = now, metadata = md\<rparr>"
  proof (cases "sc \<le> score e")
    case True
    then show ?thesis using noop dec by simp
  next
    case False
    then have "upsertScore stringify parse now r postId userId sc md =
        (\<lparr>score = sc, submittedAt = now, metadata = md\<rparr>,
         zAdd (hSet r (leaderboardMetaKey postId) userId
                 (stringify \<lparr>score = sc, submittedAt = now, metadata = md\<rparr>))
              (leaderboardKey postId) userId (toCompositeScore sc now))"
      using dec by (simp add: upsertScore_def Let_def)
    then show ?thesis
      using False codec by (simp add: hGet_after_write decodeMetadata_def)
  qed
  from noop mono show ?thesis by simp
qed

theorem upsert_lower_score_noop_witness:
  "decodeMetadata sampleParse (hGet aliceStore (leaderboardMetaKey ''post'') ''alice'')
     = Some aliceBest \<and>
   (50::real) \<le> score aliceBest \<and>
   upsertScore sampleStringify sampleParse 1700000050000 aliceStore ''post'' ''alice'' 50 None
     = (aliceBest, aliceStore) \<and>
   sampleParse (sampleStringify aliceBetter) = Some aliceBetter \<and>
   decodeMetadata sampleParse
     (hGet (snd (upsertScore sampleStringify sampleParse 1700000050000 aliceStore
                   ''post'' ''alice'' 150 None))
        (leaderboardMetaKey ''post'') ''alice'') = Some aliceBetter"
proof -
  have le: "(50::real) \<le> score aliceBest" by (simp add: aliceBest_def)
  have codec: "sampleParse (sampleStringify aliceBetter) = Some aliceBetter"
    by (simp add: sampleParse_def sampleStringify_def aliceBetter_def)
  have up: "decodeMetadata sampleParse
     (hGet (snd (upsertScore sampleStringify sampleParse 1700000050000 aliceStore
                   ''post'' ''alice'' 150 None))
        (leaderboardMetaKey ''post'') ''alice'') = Some aliceBetter"
    using aliceStore_record
    by (simp add: upsertScore_def Let_def hGet_after_write decodeMetadata_def
        sampleStringify_def sampleParse_def aliceBest_def)
  from upsert_lower_score_noop [OF aliceStore_record, of 50 sampleStringify 1700000050000 None]
    aliceStore_record le codec up
  show ?thesis by simp
qed

lemma composite_exact:
  assumes p: "\<bar>s * 1000000000000\<bar> \<le> 2 ^ 53"
    and d: "\<bar>s * 1000000000000 - t\<bar> \<le> 2 ^ 53"
  shows "toCompositeScore (of_int s) (of_int t) = of_int (s * 1000000000000 - t)"
proof -
  have m: "of_int s * SCORE_MULTIPLIER = (of_int (s * 1000000000000) :: real)"
    by (simp add: SCORE_MULTIPLIER_def)
  have "toCompositeScore (of_int s) (of_int t)
          = fl64 (fl64 (of_int (s * 1000000000000)) - of_int t)"
    by (simp only: toCompositeScore_def m)
  also have "\<dots> = fl64 (of_int (s * 1000000000000) - of_int t)"
    by (simp only: fl64_int [OF p])
  also have "\<dots> = fl64 (of_int (s * 1000000000000 - t))"
    by (simp only: of_int_diff)
  also have "\<dots> = of_int (s * 1000000000000 - t)"
    by (rule fl64_int [OF d])
  finally show ?thesis .
qed

lemma tie_lost:
  "toCompositeScore 10000 1700000000001 = toCompositeScore 10000 1700000000000"
proof -
  have m: "fl64 (10000 * SCORE_MULTIPLIER) = 10000000000000000"
    using fl64_exact [of 152587890625 16] by (simp add: SCORE_MULTIPLIER_def pow2_numeral_simps)
  have a: "fl64 9998300000000000 = 9998300000000000"
    using fl64_exact [of 4999150000000000 1] by (simp add: pow2_numeral_simps)
  have b: "fl64 9998299999999999 = 9998300000000000"
    using fl64_eval_rne [of 9998299999999999 53]
    by (simp add: pow2_numeral_simps rne_def Let_def)
  show ?thesis by (simp add: toCompositeScore_def m a b)
qed

text \<open>A product of an integer score up to 36893488 with the multiplier is exact.\<close>

lemma score_product_exact:
  assumes "\<bar>a\<bar> \<le> 36893488"
  shows "fl64 (of_int a * SCORE_MULTIPLIER) = of_int a * SCORE_MULTIPLIER"
proof -
  have e: "of_int (a * 244140625) * pow2 12 = (of_int a * SCORE_MULTIPLIER :: real)"
    by (simp add: SCORE_MULTIPLIER_def pow2_numeral_simps)
  have "\<bar>a * 244140625\<bar> < 2 ^ 53" using assms by (simp add: abs_mult)
  then have "fl64 (of_int (a * 244140625) * pow2 12) = of_int (a * 244140625) * pow2 12"
    by (rule fl64_exact) simp
  then show ?thesis by (simp only: e)
qed

text \<open>
  Claim C4, as amended. The composite value is \<open>score * MULTIPLIER - submittedAt\<close> with
  \<open>MULTIPLIER = 10^12\<close>, computed in doubles. For integer scores \<open>0 \<le> s2 < s1 \<le> 9007\<close> and
  integer timestamps from 0 to \<open>2^53\<close> the composites are exact; the composite of
  \<open>(s1, t1)\<close> is above the composite of \<open>(s2, t2)\<close> exactly when
  \<open>t1 - t2 < (s1 - s2) * MULTIPLIER\<close>, so it is above whenever the higher score was
  submitted less than \<open>10^12\<close> ms after the lower one (and whenever it was submitted
  earlier); and for equal scores the smaller \<open>submittedAt\<close> has the strictly larger
  composite. For integer scores up to 36893488 the order is never reversed: a composite
  that is not smaller before the rounding is not smaller after it.
\<close>

theorem composite_order:
  assumes s: "0 \<le> s2" "s2 < s1" "s1 \<le> 9007"
    and t: "0 \<le> t1" "t1 \<le> 2 ^ 53" "0 \<le> t2" "t2 \<le> 2 ^ 53"
  shows "SCORE_MULTIPLIER = 10 ^ 12 \<and>
         toCompositeScore (of_int s1) (of_int t1) = of_int s1 * SCORE_MULTIPLIER - of_int t1 \<and>
         toCompositeScore (of_int s2) (of_int t2) = of_int s2 * SCORE_MULTIPLIER - of_int t2 \<and>
         (toCompositeScore (of_int s2) (of_int t2) < toCompositeScore (of_int s1) (of_int t1) \<longleftrightarrow>
            of_int (t1 - t2) < of_int (s1 - s2) * SCORE_MULTIPLIER) \<and>
         (of_int (t1 - t2) < SCORE_MULTIPLIER \<longrightarrow>
            toCompositeScore (of_int s2) (of_int t2) < toCompositeScore (of_int s1) (of_int t1)) \<and>
         (t1 < t2 \<longrightarrow>
            toCompositeScore (of_int s1) (of_int t2) < toCompositeScore (of_int s1) (of_int t1)) \<and>
         (t1 < t2 \<longrightarrow>
            toCompositeScore (of_int s2) (of_int t2) < toCompositeScore (of_int s2) (of_int t1)) \<and>
         (\<forall>a b ta tb. \<bar>a\<bar> \<le> 36893488 \<and> \<bar>b\<bar> \<le> 36893488 \<and>
            of_int b * SCORE_MULTIPLIER - tb \<le> of_int a * SCORE_MULTIPLIER - ta \<longrightarrow>
            toCompositeScore (of_int b) tb \<le> toCompositeScore (of_int a) ta)"
proof -
  have c11: "toCompositeScore (of_int s1) (of_int t1) = of_int (s1 * 1000000000000 - t1)"
    using s t by (intro composite_exact) auto
  have c22: "toCompositeScore (of_int s2) (of_int t2) = of_int (s2 * 1000000000000 - t2)"
    using s t by (intro composite_exact) auto
  have c12: "toCompositeScore (of_int s1) (of_int t2) = of_int (s1 * 1000000000000 - t2)"
    using s t by (intro composite_exact) auto
  have c21: "toCompositeScore (of_int s2) (of_int t1) = of_int (s2 * 1000000000000 - t1)"
    using s t by (intro composite_exact) auto
  have iff: "toCompositeScore (of_int s2) (of_int t2) < toCompositeScore (of_int s1) (of_int t1) \<longleftrightarrow>
            (of_int (t1 - t2) :: real) < of_int (s1 - s2) * SCORE_MULTIPLIER"
    unfolding c11 c22 by (auto simp add: SCORE_MULTIPLIER_def algebra_simps)
  have "(1::real) \<le> of_int (s1 - s2)" using s by linarith
  then have "1 * SCORE_MULTIPLIER \<le> of_int (s1 - s2) * SCORE_MULTIPLIER"
    by (intro mult_right_mono) (simp_all add: SCORE_MULTIPLIER_def)
  then have imp: "of_int (t1 - t2) < SCORE_MULTIPLIER \<longrightarrow>
            toCompositeScore (of_int s2) (of_int t2) < toCompositeScore (of_int s1) (of_int t1)"
    using iff by simp
  have tie1: "t1 < t2 \<longrightarrow>
            toCompositeScore (of_int s1) (of_int t2) < toCompositeScore (of_int s1) (of_int t1)"
    unfolding c11 c12 by simp
  have tie2: "t1 < t2 \<longrightarrow>
            toCompositeScore (of_int s2) (of_int t2) < toCompositeScore (of_int s2) (of_int t1)"
    unfolding c21 c22 by simp
  have e1: "toCompositeScore (of_int s1) (of_int t1) = of_int s1 * SCORE_MULTIPLIER - of_int t1"
    unfolding c11 by (simp add: SCORE_MULTIPLIER_def)
  have e2: "toCompositeScore (of_int s2) (of_int t2) = of_int s2 * SCORE_MULTIPLIER - of_int t2"
    unfolding c22 by (simp add: SCORE_MULTIPLIER_def)
  have weak: "\<forall>a b ta tb. \<bar>a\<bar> \<le> 36893488 \<and> \<bar>b\<bar> \<le> 36893488 \<and>
            of_int b * SCORE_MULTIPLIER - tb \<le> of_int a * SCORE_MULTIPLIER - ta \<longrightarrow>
            toCompositeScore (of_int b) tb \<le> toCompositeScore (of_int a) ta"
  proof (intro allI impI)
    fix a b :: int and ta tb :: real
    assume h: "\<bar>a\<bar> \<le> 36893488 \<and> \<bar>b\<bar> \<le> 36893488 \<and>
            of_int b * SCORE_MULTIPLIER - tb \<le> of_int a * SCORE_MULTIPLIER - ta"
    then have "fl64 (of_int b * SCORE_MULTIPLIER - tb) \<le> fl64 (of_int a * SCORE_MULTIPLIER - ta)"
      by (intro fl64_mono) simp
    moreover have "fl64 (of_int a * SCORE_MULTIPLIER) = of_int a * SCORE_MULTIPLIER"
      using h by (intro score_product_exact) simp
    moreover have "fl64 (of_int b * SCORE_MULTIPLIER) = of_int b * SCORE_MULTIPLIER"
      using h by (intro score_product_exact) simp
    ultimately show "toCompositeScore (of_int b) tb \<le> toCompositeScore (of_int a) ta"
      by (simp only: toCompositeScore_def)
  qed
  have m: "SCORE_MULTIPLIER = 10 ^ 12" by (simp add: SCORE_MULTIPLIER_def)
  from m e1 e2 iff imp tie1 tie2 weak show ?thesis by blast
qed

theorem composite_order_witness:
  "(0::int) \<le> 100 \<and> (100::int) < 200 \<and> (200::int) \<le> 9007 \<and>
   toCompositeScore 200 1700000050000 = 200 * SCORE_MULTIPLIER - 1700000050000 \<and>
   toCompositeScore 100 1700000000000 < toCompositeScore 200 1700000050000 \<and>
   toCompositeScore 200 1700000050000 < toCompositeScore 200 1700000000000"
  using composite_order [of 100 200 1700000050000 1700000000000]
    composite_order [of 100 200 1700000000000 1700000050000]
  by simp

text \<open>
  The claim C4 as stated fails twice. A higher score submitted \<open>10^12\<close> ms or more after a
  lower one has the smaller composite; and from the score 9009 on the composites of today's
  timestamps are beyond \<open>2^53\<close>, where two submissions of the same score one millisecond
  apart have the same composite, so that the earlier one does not win the tie.
\<close>

theorem late_higher_score_ranks_lower:
  "(0::real) < 1 \<and> toCompositeScore 1 2000000000000 < toCompositeScore 0 946684800000 \<and>
   (1700000000000::real) < 1700000000001 \<and>
   toCompositeScore 10000 1700000000001 = toCompositeScore 10000 1700000000000"
proof -
  have "toCompositeScore (of_int 1) (of_int 2000000000000) = of_int (1 * 1000000000000 - 2000000000000)"
    by (rule composite_exact) simp_all
  moreover have "toCompositeScore (of_int 0) (of_int 946684800000) = of_int (0 * 1000000000000 - 946684800000)"
    by (rule composite_exact) simp_all
  ultimately have "toCompositeScore 1 2000000000000 < toCompositeScore 0 946684800000" by simp
  then show ?thesis using tie_lost by simp
qed


lemma composite_100_le_200:
  assumes "t2 - t1 < 100 * SCORE_MULTIPLIER"
  shows "toCompositeScore 100 t1 \<le> toCompositeScore 200 t2"
proof -
  have a: "fl64 (100 * SCORE_MULTIPLIER) = 100 * SCORE_MULTIPLIER"
    using fl64_int [of 100000000000000] by (simp add: SCORE_MULTIPLIER_def)
  have b: "fl64 (200 * SCORE_MULTIPLIER) = 200 * SCORE_MULTIPLIER"
    using fl64_int [of 200000000000000] by (simp add: SCORE_MULTIPLIER_def)
  have "100 * SCORE_MULTIPLIER - t1 \<le> 200 * SCORE_MULTIPLIER - t2"
    using assms by (simp add: SCORE_MULTIPLIER_def)
  then have "fl64 (100 * SCORE_MULTIPLIER - t1) \<le> fl64 (200 * SCORE_MULTIPLIER - t2)"
    by (rule fl64_mono)
  then show ?thesis by (simp only: toCompositeScore_def a b)
qed

lemma name_B_not_before_A: "\<not> (''B'' :: string) < ''A''"
  by simp

lemma zset_less_total:
  "fst e \<noteq> fst u \<Longrightarrow> \<not> zset_less e u \<longleftrightarrow> zset_less u e"
  by (auto simp add: zset_less_def)

lemma zset_less_irrefl: "\<not> zset_less u u"
  by (simp add: zset_less_def)

lemma count_not_before:
  assumes "distinct (map fst zs)" and "\<forall>e \<in> set zs. fst e = fst u \<longrightarrow> e = u"
  shows "length (filter (\<lambda>e. \<not> zset_less e u) zs) =
         (if u \<in> set zs then 1 else 0) + length (filter (\<lambda>e. zset_less u e) zs)"
  using assms
proof (induction zs)
  case Nil
  show ?case by simp
next
  case (Cons z zs)
  then have IH: "length (filter (\<lambda>e. \<not> zset_less e u) zs) =
         (if u \<in> set zs then 1 else 0) + length (filter (\<lambda>e. zset_less u e) zs)"
    by simp
  show ?case
  proof (cases "z = u")
    case True
    with Cons.prems have "u \<notin> set zs" by (auto simp add: image_iff)
    with True IH show ?thesis by (simp add: zset_less_irrefl)
  next
    case False
    with Cons.prems have "fst z \<noteq> fst u" by auto
    with False IH zset_less_total [of z u] show ?thesis by auto
  qed
qed

lemma rank_from_top:
  assumes d: "distinct (map fst zs)" and m: "(userId, sc) \<in> set zs"
  shows "int (length zs) - int (length (filter (\<lambda>e. zset_less e (userId, sc)) zs)) =
         1 + int (length (filter (\<lambda>e. zset_less (userId, sc) e) zs))"
proof -
  have u: "\<forall>e \<in> set zs. fst e = fst (userId, sc) \<longrightarrow> e = (userId, sc)"
    using d m by (metis eq_key_imp_eq_value prod.collapse fst_conv)
  have "length (filter (\<lambda>e. zset_less e (userId, sc)) zs) +
        length (filter (\<lambda>e. \<not> zset_less e (userId, sc)) zs) = length zs"
    by (rule sum_length_filter_compl)
  with count_not_before [OF d u] m show ?thesis by simp
qed

lemma two_submissions_zset:
  "zsets (snd (upsertScore stringify parse t2
                 (snd (upsertScore stringify parse t1 emptyRedis post ''A'' 100 md1))
                 post ''B'' 200 md2)) (leaderboardKey post)
     = [(''B'', toCompositeScore 200 t2), (''A'', toCompositeScore 100 t1)]"
  by (simp add: upsertScore_def Let_def decodeMetadata_def hGet_def hSet_def zAdd_def
      emptyRedis_def)

text \<open>
  Claim C8. In a sorted set (its members distinct), \<open>getRankForUser\<close> returns \<open>null\<close> for a
  user without entry. For a user with an entry it returns \<open>total - ascendingRank\<close>, where
  \<open>ascendingRank\<close> is the number of entries before the user's from the lowest composite
  score up and \<open>total\<close> the cardinality; that number is one more than the number of entries
  above the user's, the user's 1-based rank from the highest composite score down. After A
  has submitted 100 and B 200 (B less than \<open>100 * 10^12\<close> ms after A), the rank of A is 2.
\<close>

theorem getRankForUser_descending_rank:
  assumes d: "distinct (map fst (zsets r (leaderboardKey postId)))"
  shows "(userId \<notin> fst ` set (zsets r (leaderboardKey postId)) \<longrightarrow>
            getRankForUser r postId userId = None) \<and>
         ((userId, sc) \<in> set (zsets r (leaderboardKey postId)) \<longrightarrow>
            zRank r (leaderboardKey postId) userId =
              Some (length (filter (\<lambda>e. zset_less e (userId, sc))
                              (zsets r (leaderboardKey postId)))) \<and>
            getRankForUser r postId userId =
              Some (int (zCard r (leaderboardKey postId)) -
                    int (length (filter (\<lambda>e. zset_less e (userId, sc))
                                   (zsets r (leaderboardKey postId))))) \<and>
            getRankForUser r postId userId =
              Some (1 + int (length (filter (\<lambda>e. zset_less (userId, sc) e)
                                       (zsets r (leaderboardKey postId)))))) \<and>
         (t2 - t1 < 100 * SCORE_MULTIPLIER \<longrightarrow>
            getRankForUser
              (snd (upsertScore stringify parse t2
                      (snd (upsertScore stringify parse t1 emptyRedis post ''A'' 100 md1))
                      post ''B'' 200 md2))
              post ''A'' = Some 2)"
proof -
  let ?zs = "zsets r (leaderboardKey postId)"
  have none: "userId \<notin> fst ` set ?zs \<longrightarrow> getRankForUser r postId userId = None"
  proof
    assume "userId \<notin> fst ` set ?zs"
    then have "map_of ?zs userId = None" by (simp add: map_of_eq_None_iff)
    then show "getRankForUser r postId userId = None"
      by (simp add: getRankForUser_def zRank_def Let_def)
  qed
  have some: "(userId, sc) \<in> set ?zs \<longrightarrow>
            zRank r (leaderboardKey postId) userId =
              Some (length (filter (\<lambda>e. zset_less e (userId, sc)) ?zs)) \<and>
            getRankForUser r postId userId =
              Some (int (zCard r (leaderboardKey postId)) -
                    int (length (filter (\<lambda>e. zset_less e (userId, sc)) ?zs))) \<and>
            getRankForUser r postId userId =
              Some (1 + int (length (filter (\<lambda>e. zset_less (userId, sc) e) ?zs)))"
  proof
    assume m: "(userId, sc) \<in> set ?zs"
    with d have mo: "map_of ?zs userId = Some sc" by simp
    then have zr: "zRank r (leaderboardKey postId) userId =
              Some (length (filter (\<lambda>e. zset_less e (userId, sc)) ?zs))"
      by (simp add: zRank_def)
    then have g: "getRankForUser r postId userId =
        Some (int (length ?zs) - int (length (filter (\<lambda>e. zset_less e (userId, sc)) ?zs)))"
      by (simp add: getRankForUser_def Let_def zCard_def)
    from zr g rank_from_top [OF d m]
    show "zRank r (leaderboardKey postId) userId =
              Some (length (filter (\<lambda>e. zset_less e (userId, sc)) ?zs)) \<and>
            getRankForUser r postId userId =
              Some (int (zCard r (leaderboardKey postId)) -
                    int (length (filter (\<lambda>e. zset_less e (userId, sc)) ?zs))) \<and>
            getRankForUser r postId userId =
              Some (1 + int (length (filter (\<lambda>e. zset_less (userId, sc) e) ?zs)))"
      by (simp add: zCard_def)
  qed
  have ex: "t2 - t1 < 100 * SCORE_MULTIPLIER \<longrightarrow>
            getRankForUser
              (snd (upsertScore stringify parse t2
                      (snd (upsertScore stringify parse t1 emptyRedis post ''A'' 100 md1))
                      post ''B'' 200 md2))
              post ''A'' = Some 2"
  proof
    assume t: "t2 - t1 < 100 * SCORE_MULTIPLIER"
    then have lt: "toCompositeScore 100 t1 \<le> toCompositeScore 200 t2"
      by (rule composite_100_le_200)
    show "getRankForUser
              (snd (upsertScore stringify parse t2
                      (snd (upsertScore stringify parse t1 emptyRedis post ''A'' 100 md1))
                      post ''B'' 200 md2))
              post ''A'' = Some 2"
      using lt
      by (simp add: getRankForUser_def Let_def zRank_def zCard_def two_submissions_zset
          zset_less_def name_B_not_before_A)
  qed
  from none some ex show ?thesis by blast
qed

theorem getRankForUser_descending_rank_witness:
  "distinct (map fst (zsets twoPlayerStore (leaderboardKey ''post''))) \<and>
   ''C'' \<notin> fst ` set (zsets twoPlayerStore (leaderboardKey ''post'')) \<and>
   getRankForUser twoPlayerStore ''post'' ''C'' = None \<and>
   (''B'', toCompositeScore 200 1700000050000)
      \<in> set (zsets twoPlayerStore (leaderboardKey ''post'')) \<and>
   getRankForUser twoPlayerStore ''post'' ''B'' = Some 1 \<and>
   getRankForUser twoPlayerStore ''post'' ''A'' = Some 2"
proof -
  have zs: "zsets twoPlayerStore (leaderboardKey ''post'') =
      [(''B'', toCompositeScore 200 1700000050000), (''A'', toCompositeScore 100 1700000000000)]"
    unfolding twoPlayerStore_def by (rule two_submissions_zset)
  have d: "distinct (map fst (zsets twoPlayerStore (leaderboardKey ''post'')))"
    by (simp add: zs)
  have c: "''C'' \<notin> fst ` set (zsets twoPlayerStore (leaderboardKey ''post''))"
    by (simp add: zs)
  have b: "(''B'', toCompositeScore 200 1700000050000)
      \<in> set (zsets twoPlayerStore (leaderboardKey ''post''))"
    by (simp add: zs)
  have t: "(1700000050000::real) - 1700000000000 < 100 * SCORE_MULTIPLIER"
    by (simp add: SCORE_MULTIPLIER_def)
  have "toCompositeScore (of_int 100) (of_int 1700000000000)
          = of_int (100 * 1000000000000 - 1700000000000)"
    by (rule composite_exact) simp_all
  moreover have "toCompositeScore (of_int 200) (of_int 1700000050000)
          = of_int (200 * 1000000000000 - 1700000050000)"
    by (rule composite_exact) simp_all
  ultimately have lt: "toCompositeScore 100 1700000000000 < toCompositeScore 200 1700000050000"
    by simp
  from getRankForUser_descending_rank [OF d, where userId = "''C''"] c
  have 1: "getRankForUser twoPlayerStore ''post'' ''C'' = None" by simp
  from getRankForUser_descending_rank [OF d, where userId = "''B''"
      and sc = "toCompositeScore 200 1700000050000"] b lt
  have 2: "getRankForUser twoPlayerStore ''post'' ''B'' = Some 1"
    by (simp add: zs zset_less_def zCard_def)
  from getRankForUser_descending_rank [OF d, where ?t1.0 = 1700000000000
      and ?t2.0 = 1700000050000 and stringify = sampleStringify and parse = sampleParse
      and post = "''post''" and ?md1.0 = None and ?md2.0 = None] t
  have 3: "getRankForUser twoPlayerStore ''post'' ''A'' = Some 2"
    by (simp add: twoPlayerStore_def)
  from d c b 1 2 3 show ?thesis by simp
qed

end
